theory Spec2Isabelle
  imports Main "HOL-Library.Sublist" "HOL-Library.Code_Target_Nat"
begin

section \<open>Python strings\<close>

text \<open>
  A Python \<open>str\<close> is a sequence of Unicode code points, modelled as a list of natural
  numbers; \<open>ascii\<close> turns a literal into such a sequence. Whitespace is what
  \<open>str.strip\<close> and \<open>str.split\<close> take it to be: the ASCII characters 9 to 13 and 28
  to 32, and U+0085, U+00A0, U+1680, U+2000 to U+200A, U+2028, U+2029, U+202F, U+205F
  and U+3000. \<open>lower\<close> lowers the letters \<open>A\<close> to \<open>Z\<close>; \<open>str.lower\<close> maps a character
  outside ASCII to characters outside ASCII, with two exceptions: U+0130 gives \<open>i\<close>
  followed by U+0307, and U+212A gives \<open>k\<close>. The program only compares lowered text
  with ASCII texts that contain neither \<open>i\<close> nor \<open>k\<close>, and for those comparisons
  leaving the characters outside ASCII as they are gives the answer \<open>str.lower\<close> gives.
\<close>

type_synonym pystr = "nat list"

definition ascii :: "string \<Rightarrow> pystr" where
  "ascii s = map of_char s"

definition lower_char :: "nat \<Rightarrow> nat" where
  "lower_char c = (if 65 \<le> c \<and> c \<le> 90 then c + 32 else c)"

definition lower :: "pystr \<Rightarrow> pystr" where
  "lower s = map lower_char s"

definition is_space :: "nat \<Rightarrow> bool" where
  "is_space c =
     ((9 \<le> c \<and> c \<le> 13) \<or> (28 \<le> c \<and> c \<le> 32) \<or> c = 0x85 \<or> c = 0xA0 \<or> c = 0x1680 \<or>
      (0x2000 \<le> c \<and> c \<le> 0x200A) \<or> c = 0x2028 \<or> c = 0x2029 \<or> c = 0x202F \<or>
      c = 0x205F \<or> c = 0x3000)"

definition lstrip :: "pystr \<Rightarrow> pystr" where
  "lstrip s = dropWhile is_space s"

definition rstrip :: "pystr \<Rightarrow> pystr" where
  "rstrip s = rev (dropWhile is_space (rev s))"

definition strip :: "pystr \<Rightarrow> pystr" where
  "strip s = rstrip (lstrip s)"

text \<open>\<open>needle in s\<close>: some position of \<open>s\<close> starts with \<open>needle\<close>.\<close>

primrec str_contains :: "pystr \<Rightarrow> pystr \<Rightarrow> bool" where
  "str_contains needle [] = (needle = [])"
| "str_contains needle (c # cs) = (prefix needle (c # cs) \<or> str_contains needle cs)"

text \<open>\<open>sep.join(xs)\<close>.\<close>

fun join :: "pystr \<Rightarrow> pystr list \<Rightarrow> pystr" where
  "join sep [] = []"
| "join sep [x] = x"
| "join sep (x # y # ys) = x @ sep @ join sep (y # ys)"

text \<open>
  \<open>s.split()\<close> with no separator: the maximal runs of non-whitespace characters, in
  order. The first argument holds the characters of the word being read.
\<close>

fun split_from :: "pystr \<Rightarrow> pystr \<Rightarrow> pystr list" where
  "split_from cur [] = (if cur = [] then [] else [cur])"
| "split_from cur (c # cs) =
     (if is_space c then (if cur = [] then split_from [] cs else cur # split_from [] cs)
      else split_from (cur @ [c]) cs)"

definition split :: "pystr \<Rightarrow> pystr list" where
  "split s = split_from [] s"

section \<open>Dates\<close>

text \<open>
  \<open>datetime.date\<close> in the proleptic Gregorian calendar. \<open>date_add_days d n\<close> is
  \<open>d + timedelta(days=n)\<close> and \<open>isoformat\<close> prints \<open>YYYY-MM-DD\<close>. The clock is taken
  to be more than a week before \<open>date.max\<close>, so the addition does not overflow.
\<close>

record date =
  year :: nat
  month :: nat
  day :: nat

definition is_leap :: "nat \<Rightarrow> bool" where
  "is_leap y = (y mod 4 = 0 \<and> (y mod 100 \<noteq> 0 \<or> y mod 400 = 0))"

definition days_in_month :: "nat \<Rightarrow> nat \<Rightarrow> nat" where
  "days_in_month y m =
     (if m = 2 then (if is_leap y then 29 else 28)
      else if m = 4 \<or> m = 6 \<or> m = 9 \<or> m = 11 then 30 else 31)"

definition next_day :: "date \<Rightarrow> date" where
  "next_day d =
     (if day d < days_in_month (year d) (month d) then d\<lparr>day := day d + 1\<rparr>
      else if month d < 12 then d\<lparr>month := month d + 1, day := 1\<rparr>
      else \<lparr>year = year d + 1, month = 1, day = 1\<rparr>)"

primrec date_add_days :: "date \<Rightarrow> nat \<Rightarrow> date" where
  "date_add_days d 0 = d"
| "date_add_days d (Suc n) = date_add_days (next_day d) n"

text \<open>The code point of the last decimal digit of a number.\<close>

definition digit_char :: "nat \<Rightarrow> nat" where
  "digit_char n = 48 + n mod 10"

primrec zero_pad :: "nat \<Rightarrow> nat \<Rightarrow> pystr" where
  "zero_pad 0 n = []"
| "zero_pad (Suc w) n = zero_pad w (n div 10) @ [digit_char n]"

definition isoformat :: "date \<Rightarrow> pystr" where
  "isoformat d =
     zero_pad 4 (year d) @ ascii ''-'' @ zero_pad 2 (month d) @ ascii ''-'' @ zero_pad 2 (day d)"

section \<open>Validation overrides and the failure classifier\<close>

definition CLUSTER_REMOVAL_ALLOWLIST_TOKEN :: pystr where
  "CLUSTER_REMOVAL_ALLOWLIST_TOKEN = ascii ''content-cluster-removal''"

definition MISSING_PACKAGE_ERROR :: pystr where
  "MISSING_PACKAGE_ERROR = ascii ''Either application_package or application_root must be set''"

text \<open>The apostrophe, as a one-character text.\<close>

definition quote :: pystr where
  "quote = [0x27]"

definition validation_overrides_xml :: "date \<Rightarrow> pystr" where
  "validation_overrides_xml until =
     ascii ''<validation-overrides>\<newline>'' @
     ascii ''  <allow until='' @ quote @ isoformat until @ quote @ ascii ''>'' @
       CLUSTER_REMOVAL_ALLOWLIST_TOKEN @ ascii ''</allow>\<newline>'' @
     ascii ''</validation-overrides>\<newline>''"

definition looks_like_cluster_removal_error :: "pystr \<Rightarrow> bool" where
  "looks_like_cluster_removal_error message =
     (if message = [] then False
      else let lowered = lower message in
        if str_contains CLUSTER_REMOVAL_ALLOWLIST_TOKEN lowered then True
        else str_contains (ascii ''content cluster'') lowered \<and>
             str_contains (ascii ''removed'') lowered)"

text \<open>
  The wording of the specification: a message contains a text case-insensitively when
  one of its substrings equals the text up to the case of letters.
\<close>

definition contains_ignoring_case :: "pystr \<Rightarrow> pystr \<Rightarrow> bool" where
  "contains_ignoring_case needle s =
     (\<exists>pre mid suf. s = pre @ mid @ suf \<and> lower mid = lower needle)"

definition spec_classify :: "pystr \<Rightarrow> bool" where
  "spec_classify message =
     (contains_ignoring_case (ascii ''content-cluster-removal'') message \<or>
      (contains_ignoring_case (ascii ''content cluster'') message \<and>
       contains_ignoring_case (ascii ''removed'') message))"

section \<open>Exceptions, effects and the outside world\<close>

text \<open>
  An \<open>exn\<close> is an instance of \<open>Exception\<close>: its class, up to what the program tests
  with \<open>isinstance\<close>, and the text \<open>str(e)\<close>. \<open>TypeError\<close> stands for \<open>TypeError\<close> and
  its subclasses. \<open>MarkupError\<close> is what the console raises for a text it cannot
  render.
\<close>

datatype exn_class =
  TypeError | ValueError | RuntimeError | EOFError | MarkupError | OtherError

datatype exn = Exn (exn_class: exn_class) (message: pystr)

datatype app_package = ApplicationPackage (name: pystr)

text \<open>The values passed as keyword arguments.\<close>

datatype pyval = PNone | PStr pystr | PPackage app_package

datatype deploy_call = ByPackage app_package | ByRoot pystr | NoArgs

datatype level = DEBUG | INFO | SUCCESS | WARNING

text \<open>
  Every effect of the program is recorded, in order, in a trace: the directories it
  creates and the files it writes, the clients it constructs and the calls it makes on
  them, what it prints, logs and reads. \<open>Cleanup p\<close> is the removal of the temporary
  directory \<open>p\<close>, with all it contains, by the finaliser of its \<open>TemporaryDirectory\<close>
  object: CPython runs it as soon as the last reference to the object is dropped.
\<close>

datatype event =
    MkTemp pystr
  | Cleanup pystr
  | ToFiles pystr
  | Mkdir pystr
  | WriteText pystr pystr
  | Construct pystr "(pystr \<times> pyval) list"
  | Deploy deploy_call
  | SetAttr pystr pyval
  | Print pystr
  | Prompt pystr
  | ReadLine pystr
  | Log level pystr

text \<open>
  The handle a successful deploy returns, as the three attributes the program reads
  with \<open>getattr(vespa_app, name, None)\<close>: \<open>None\<close> (also for a missing attribute), a
  \<open>str\<close>, a \<open>bytes\<close> (given by the characters between the quotes of its \<open>repr\<close>), a
  path-like object with a \<open>str\<close> path, or any other object, given by its text.
\<close>

datatype attr_val = ANone | AStr pystr | ABytes pystr | APath pystr | AOther pystr

record vespa_app =
  url :: attr_val
  port :: attr_val
  cert :: attr_val

text \<open>
  The deployment client is not part of the program. An instance answers \<open>hasattr\<close>,
  may refuse \<open>setattr\<close>, and answers a \<open>deploy\<close> call, given everything that happened
  before the call, with a handle or an exception. A client class has a name, the
  parameter names of its constructor and the constructor itself.
\<close>

record deployer =
  has_attr :: "pystr \<Rightarrow> bool"
  setattr_raises :: "pystr \<Rightarrow> bool"
  deploy :: "deploy_call \<Rightarrow> event list \<Rightarrow> exn + vespa_app"

record client_class =
  cls_name :: pystr
  init_params :: "pystr list"
  construct :: "(pystr \<times> pyval) list \<Rightarrow> event list \<Rightarrow> exn + deployer"

text \<open>The accessors of \<open>DeployConfig\<close> that the program calls, as the values they return.\<close>

record deploy_config =
  is_local_mode :: bool
  get_configserver_url :: pystr
  get_cloud_tenant :: "pystr option"
  get_cloud_application :: "pystr option"
  get_cloud_instance :: "pystr option"
  get_cloud_api_key_path :: "pystr option"
  get_cloud_api_key :: "pystr option"

text \<open>
  What the program reads and never changes: whether standard input is a terminal, the
  date, the names \<open>tempfile\<close> hands out, the class \<open>resolve_vespa_docker_class()\<close>
  returns, \<open>vespa.deployment.VespaCloud\<close>, the constant of \<open>nyrag.defaults\<close>, the
  configuration \<open>DeployConfig()\<close> builds, and the console of \<open>nyrag.logger\<close>, which is
  not part of the program either: \<open>print_raises\<close> gives the exception the console
  raises for a text instead of printing it, if any. A console that reads markup, as
  the one of \<open>rich\<close> does, raises \<open>MarkupError\<close> for a text with a closing tag that
  closes nothing, such as \<open>[/docs]\<close>.
\<close>

record env =
  stdin_isatty :: bool
  today :: date
  tmp_name :: "nat \<Rightarrow> pystr"
  resolve_vespa_docker_class :: client_class
  VespaCloud :: client_class
  DEFAULT_VESPA_DOCKER_IMAGE :: pystr
  DeployConfig :: deploy_config
  print_raises :: "pystr \<Rightarrow> exn option"

text \<open>
  What changes: the lines waiting on standard input, the number of temporary
  directories created so far, and the trace. Filesystem operations and logging are
  taken to succeed.
\<close>

record world =
  stdin :: "pystr list"
  tmp_count :: nat
  trace :: "event list"

definition emit :: "event \<Rightarrow> world \<Rightarrow> world" where
  "emit ev w = w\<lparr>trace := trace w @ [ev]\<rparr>"

text \<open>\<open>console.print(text)\<close>: the console raises before it prints anything.\<close>

definition console_print :: "env \<Rightarrow> pystr \<Rightarrow> world \<Rightarrow> (exn + unit) \<times> world" where
  "console_print env t w =
     (case print_raises env t of
        Some e \<Rightarrow> (Inl e, w)
      | None \<Rightarrow> (Inr (), emit (Print t) w))"

text \<open>
  \<open>console.input(prompt)\<close>: the prompt is printed as \<open>console.print\<close> prints, then one
  line is read, without its newline; \<open>EOFError\<close> at end of input.
\<close>

definition console_input :: "env \<Rightarrow> pystr \<Rightarrow> world \<Rightarrow> (exn + pystr) \<times> world" where
  "console_input env prompt w =
     (case print_raises env prompt of
        Some e \<Rightarrow> (Inl e, w)
      | None \<Rightarrow>
          (case stdin w of
             [] \<Rightarrow> (Inl (Exn EOFError (ascii ''EOF when reading a line'')), emit (Prompt prompt) w)
           | l # ls \<Rightarrow> (Inr l, emit (ReadLine l) (emit (Prompt prompt) w)\<lparr>stdin := ls\<rparr>)))"

text \<open>\<open>tempfile.TemporaryDirectory()\<close>: a new directory, under the next name.\<close>

definition TemporaryDirectory :: "env \<Rightarrow> world \<Rightarrow> pystr \<times> world" where
  "TemporaryDirectory env w =
     (let p = tmp_name env (tmp_count w)
      in (p, emit (MkTemp p) (w\<lparr>tmp_count := Suc (tmp_count w)\<rparr>)))"

text \<open>
  The variable \<open>tmp\<close> holds \<open>None\<close> or the only reference to a \<open>TemporaryDirectory\<close>
  object, given here by its directory. When the variable is bound to something else,
  or the function returns, the reference is dropped and the finaliser removes the
  directory.
\<close>

definition drop_tmp :: "pystr option \<Rightarrow> world \<Rightarrow> world" where
  "drop_tmp t w = (case t of None \<Rightarrow> w | Some p \<Rightarrow> emit (Cleanup p) w)"

definition path_join :: "pystr \<Rightarrow> pystr \<Rightarrow> pystr" where
  "path_join d f = d @ ascii ''/'' @ f"

section \<open>The confirmation gate\<close>

text \<open>The three texts the gate hands to the console.\<close>

definition risk_text :: "date \<Rightarrow> pystr" where
  "risk_text until =
     ascii ''\<newline>Vespa refused this deploy because it would remove an existing content cluster.\<newline>'' @
     ascii ''- Override: '' @ CLUSTER_REMOVAL_ALLOWLIST_TOKEN @ ascii '' (until '' @
       isoformat until @ ascii '')\<newline>'' @
     ascii ''This will cause loss of all data in that cluster.''"

definition message_text :: "pystr \<Rightarrow> pystr" where
  "message_text msg = ascii ''\<newline>Vespa message:\<newline>'' @ strip msg @ ascii ''\<newline>''"

definition PROMPT :: pystr where
  "PROMPT = ascii ''Purge existing cluster data and redeploy? [y/N]: ''"

definition confirm_cluster_removal ::
  "env \<Rightarrow> pystr \<Rightarrow> date \<Rightarrow> world \<Rightarrow> (exn + bool) \<times> world" where
  "confirm_cluster_removal env msg until w =
     (if \<not> stdin_isatty env then
        (Inr False,
         emit (Log WARNING
           (ascii ''Vespa deploy requires '' @ quote @ ascii ''content-cluster-removal'' @ quote @
            ascii '' override, but stdin is not interactive.'')) w)
      else
        (case console_print env (risk_text until) w of
           (Inl e, w1) \<Rightarrow> (Inl e, w1)
         | (Inr u, w1) \<Rightarrow>
             (case (if strip msg \<noteq> [] then console_print env (message_text msg) w1
                    else (Inr (), w1)) of
                (Inl e, w2) \<Rightarrow> (Inl e, w2)
              | (Inr u, w2) \<Rightarrow>
                  (case console_input env PROMPT w2 of
                     (Inl e, w3) \<Rightarrow> (Inl e, w3)
                   | (Inr answer, w3) \<Rightarrow>
                       (Inr (lower (strip answer) \<in> {ascii ''y'', ascii ''yes''}), w3)))))"

text \<open>The texts a call of the gate on a terminal hands to the console, in order.\<close>

definition gate_texts :: "pystr \<Rightarrow> date \<Rightarrow> pystr list" where
  "gate_texts msg until =
     risk_text until # (if strip msg \<noteq> [] then [message_text msg] else []) @ [PROMPT]"

definition write_validation_overrides :: "pystr \<Rightarrow> date \<Rightarrow> world \<Rightarrow> world" where
  "write_validation_overrides app_dir until w =
     emit (WriteText (path_join app_dir (ascii ''validation-overrides.xml''))
             (validation_overrides_xml until))
       (emit (Mkdir app_dir) w)"

text \<open>
  The wording of the specification for the answer: the line, once the whitespace
  around it is removed, is \<open>y\<close> or \<open>yes\<close> in any mix of upper and lower case.
\<close>

definition affirmative :: "pystr \<Rightarrow> bool" where
  "affirmative line =
     (\<exists>pre core suf. line = pre @ core @ suf \<and> list_all is_space pre \<and>
        list_all is_space suf \<and> (lower core = ascii ''y'' \<or> lower core = ascii ''yes''))"

section \<open>The version-adaptive invoker\<close>

definition should_fallback :: "exn \<Rightarrow> bool" where
  "should_fallback exc =
     (let msg = message exc
      in if exn_class exc = TypeError then True else str_contains MISSING_PACKAGE_ERROR msg)"

definition call_deploy :: "deployer \<Rightarrow> deploy_call \<Rightarrow> world \<Rightarrow> (exn + vespa_app) \<times> world" where
  "call_deploy deployer c w = (deploy deployer c (trace w), emit (Deploy c) w)"

text \<open>\<open>if hasattr(deployer, attr): try: setattr(deployer, attr, value) except Exception: pass\<close>\<close>

definition set_if_present :: "deployer \<Rightarrow> world \<Rightarrow> pystr \<times> pyval \<Rightarrow> world" where
  "set_if_present deployer w av =
     (if has_attr deployer (fst av)
      then (if setattr_raises deployer (fst av) then w else emit (SetAttr (fst av) (snd av)) w)
      else w)"

definition deploy_with_pyvespa ::
  "deployer \<Rightarrow> app_package \<Rightarrow> pystr \<Rightarrow> world \<Rightarrow> (exn + vespa_app) \<times> world" where
  "deploy_with_pyvespa deployer application_package application_root w =
     (case call_deploy deployer (ByPackage application_package) w of
        (Inr r, w1) \<Rightarrow> (Inr r, w1)
      | (Inl e, w1) \<Rightarrow>
          if \<not> should_fallback e then (Inl e, w1)
          else
            (case call_deploy deployer (ByRoot application_root) w1 of
               (Inr r, w2) \<Rightarrow> (Inr r, w2)
             | (Inl e2, w2) \<Rightarrow>
                 if \<not> should_fallback e2 then (Inl e2, w2)
                 else
                   let w3 = foldl (set_if_present deployer) w2
                         [(ascii ''application_package'', PPackage application_package),
                          (ascii ''app_package'', PPackage application_package),
                          (ascii ''package'', PPackage application_package),
                          (ascii ''application_root'', PStr application_root)]
                   in call_deploy deployer NoArgs w3))"

section \<open>The deploy orchestrator\<close>

definition truthy :: "pystr option \<Rightarrow> bool" where
  "truthy v = (case v of None \<Rightarrow> False | Some s \<Rightarrow> s \<noteq> [])"

text \<open>An optional string inside an f-string, and as a keyword argument.\<close>

definition str_of :: "pystr option \<Rightarrow> pystr" where
  "str_of v = (case v of None \<Rightarrow> ascii ''None'' | Some s \<Rightarrow> s)"

definition val_of :: "pystr option \<Rightarrow> pyval" where
  "val_of v = (case v of None \<Rightarrow> PNone | Some s \<Rightarrow> PStr s)"

text \<open>An attribute value inside an f-string, and its truth value.\<close>

definition format_attr :: "attr_val \<Rightarrow> pystr" where
  "format_attr v =
     (case v of
        ANone \<Rightarrow> ascii ''None''
      | AStr s \<Rightarrow> s
      | ABytes b \<Rightarrow> ascii ''b'' @ quote @ b @ quote
      | APath s \<Rightarrow> s
      | AOther s \<Rightarrow> s)"

definition truthy_attr :: "attr_val \<Rightarrow> bool" where
  "truthy_attr v =
     (case v of ANone \<Rightarrow> False | AStr s \<Rightarrow> s \<noteq> [] | ABytes b \<Rightarrow> b \<noteq> [] | APath s \<Rightarrow> True
      | AOther s \<Rightarrow> True)"

text \<open>
  \<open>_as_path_str\<close>: \<open>os.fspath\<close> returns a \<open>str\<close> or a \<open>bytes\<close> as it is and the path of
  a path-like object, and raises for anything else, which then is not a \<open>str\<close>.
\<close>

definition as_path_str :: "attr_val \<Rightarrow> attr_val" where
  "as_path_str v =
     (case v of
        ANone \<Rightarrow> ANone
      | AStr s \<Rightarrow> AStr s
      | ABytes b \<Rightarrow> ABytes b
      | APath s \<Rightarrow> AStr s
      | AOther s \<Rightarrow> ANone)"

definition set_vespa_endpoint_env_from_app :: "vespa_app \<Rightarrow> world \<Rightarrow> world" where
  "set_vespa_endpoint_env_from_app vespa_app w =
     (let cert_str = as_path_str (cert vespa_app);
          w1 = (case url vespa_app of
                  AStr u \<Rightarrow>
                    emit (Log DEBUG (ascii ''Vespa endpoint: '' @ u @ ascii '':'' @
                                       format_attr (port vespa_app))) w
                | _ \<Rightarrow> w)
      in if truthy_attr cert_str
         then emit (Log DEBUG (ascii ''mTLS cert: '' @ format_attr cert_str)) w1 else w1)"

definition call_construct ::
  "client_class \<Rightarrow> (pystr \<times> pyval) list \<Rightarrow> world \<Rightarrow> (exn + deployer) \<times> world" where
  "call_construct cls kwargs w =
     (construct cls kwargs (trace w), emit (Construct (cls_name cls) kwargs) w)"

text \<open>
  The keyword arguments for the constructor of the local client: of the names the
  program knows, those the constructor's signature declares.
\<close>

definition docker_init_kwargs ::
  "env \<Rightarrow> app_package \<Rightarrow> deploy_config \<Rightarrow> pystr \<Rightarrow> (pystr \<times> pyval) list" where
  "docker_init_kwargs env app_pkg deploy_cfg effective_app_dir =
     (let params = set (init_params (resolve_vespa_docker_class env))
      in (if ascii ''image'' \<in> params
          then [(ascii ''image'', PStr (DEFAULT_VESPA_DOCKER_IMAGE env))]
          else if ascii ''docker_image'' \<in> params
            then [(ascii ''docker_image'', PStr (DEFAULT_VESPA_DOCKER_IMAGE env))]
          else []) @
         (if ascii ''cfgsrv_url'' \<in> params
          then [(ascii ''cfgsrv_url'', PStr (get_configserver_url deploy_cfg))] else []) @
         (if ascii ''application_package'' \<in> params
          then [(ascii ''application_package'', PPackage app_pkg)] else []) @
         (if ascii ''application_root'' \<in> params
          then [(ascii ''application_root'', PStr effective_app_dir)] else []))"

text \<open>The branch \<open>mode == "docker"\<close> of the loop body.\<close>

definition deploy_docker ::
  "env \<Rightarrow> app_package \<Rightarrow> deploy_config \<Rightarrow> pystr \<Rightarrow> world \<Rightarrow> (exn + bool) \<times> world" where
  "deploy_docker env app_pkg deploy_cfg effective_app_dir w =
     (let VespaDocker = resolve_vespa_docker_class env;
          w1 = (if cls_name VespaDocker = ascii ''ComposeVespaDocker''
                then emit (Log INFO (ascii ''Deploying via compose config server at '' @
                             get_configserver_url deploy_cfg))
                       (emit (Log INFO (ascii ''Deploying with ComposeVespaDocker'')) w)
                else emit (Log INFO (ascii ''Deploying with VespaDocker (image='' @
                             DEFAULT_VESPA_DOCKER_IMAGE env @ ascii '')'')) w);
          init_kwargs = docker_init_kwargs env app_pkg deploy_cfg effective_app_dir
      in case call_construct VespaDocker init_kwargs w1 of
           (Inl e, w2) \<Rightarrow> (Inl e, w2)
         | (Inr docker, w2) \<Rightarrow>
             (case deploy_with_pyvespa docker app_pkg effective_app_dir w2 of
                (Inl e, w3) \<Rightarrow> (Inl e, w3)
              | (Inr vespa_app, w3) \<Rightarrow>
                  (Inr True,
                   emit (Log SUCCESS (ascii ''VespaDocker deploy succeeded''))
                     (set_vespa_endpoint_env_from_app vespa_app w3))))"

text \<open>
  In cloud mode: the application name, \<open>get_cloud_application() or app_package.name\<close>,
  and the keyword arguments for the constructor of the cloud client.
\<close>

definition cloud_application :: "app_package \<Rightarrow> deploy_config \<Rightarrow> pystr" where
  "cloud_application app_pkg deploy_cfg =
     (if truthy (get_cloud_application deploy_cfg)
      then str_of (get_cloud_application deploy_cfg) else name app_pkg)"

definition cloud_init_kwargs ::
  "env \<Rightarrow> app_package \<Rightarrow> deploy_config \<Rightarrow> pystr \<Rightarrow> (pystr \<times> pyval) list" where
  "cloud_init_kwargs env app_pkg deploy_cfg effective_app_dir =
     (let params = set (init_params (VespaCloud env));
          api_key_path = get_cloud_api_key_path deploy_cfg;
          api_key = get_cloud_api_key deploy_cfg
      in concat (map (\<lambda>kv. if fst kv \<in> params then [kv] else [])
           [(ascii ''tenant'', val_of (get_cloud_tenant deploy_cfg)),
            (ascii ''application'', PStr (cloud_application app_pkg deploy_cfg)),
            (ascii ''instance'', val_of (get_cloud_instance deploy_cfg))]) @
         (if ascii ''application_package'' \<in> params
          then [(ascii ''application_package'', PPackage app_pkg)] else []) @
         (if ascii ''application_root'' \<in> params
          then [(ascii ''application_root'', PStr effective_app_dir)] else []) @
         (if truthy api_key_path \<and> ascii ''api_key_path'' \<in> params
          then [(ascii ''api_key_path'', val_of api_key_path)] else []) @
         (if truthy api_key \<and> ascii ''api_key'' \<in> params
          then [(ascii ''api_key'', val_of api_key)] else []))"

text \<open>The branch \<open>mode == "cloud"\<close> of the loop body.\<close>

definition deploy_cloud ::
  "env \<Rightarrow> app_package \<Rightarrow> deploy_config \<Rightarrow> pystr \<Rightarrow> world \<Rightarrow> (exn + bool) \<times> world" where
  "deploy_cloud env app_pkg deploy_cfg effective_app_dir w =
     (let tenant = get_cloud_tenant deploy_cfg
      in if \<not> truthy tenant
         then (Inl (Exn RuntimeError (ascii ''Missing env var: VESPA_CLOUD_TENANT'')), w)
      else
        let application = cloud_application app_pkg deploy_cfg;
            inst = get_cloud_instance deploy_cfg;
            w1 = (if \<not> truthy (get_cloud_application deploy_cfg)
                  then emit (Log INFO
                         (ascii ''VESPA_CLOUD_APPLICATION not set; using generated app name '' @
                          quote @ application @ quote)) w
                  else w);
            w2 = emit (Log INFO (ascii ''Deploying to Vespa Cloud: '' @ str_of tenant @
                         ascii ''/'' @ application @ ascii ''/'' @ str_of inst)) w1;
            init_kwargs = cloud_init_kwargs env app_pkg deploy_cfg effective_app_dir
        in case call_construct (VespaCloud env) init_kwargs w2 of
             (Inl e, w3) \<Rightarrow> (Inl e, w3)
           | (Inr cloud, w3) \<Rightarrow>
               (case deploy_with_pyvespa cloud app_pkg effective_app_dir w3 of
                  (Inl e, w4) \<Rightarrow> (Inl e, w4)
                | (Inr vespa_app, w4) \<Rightarrow>
                    (Inr True,
                     emit (Log SUCCESS (ascii ''Vespa Cloud deploy succeeded''))
                       (set_vespa_endpoint_env_from_app vespa_app w4))))"

text \<open>
  The variables the loop carries from one iteration to the next: \<open>app_dir\<close>,
  \<open>attempted_override\<close> and \<open>tmp\<close>, which is unbound until the first iteration binds
  it to \<open>None\<close>.
\<close>

record loop_state =
  app_dir :: "pystr option"
  attempted_override :: bool
  tmp :: "pystr option"

definition initial_state :: "pystr option \<Rightarrow> loop_state" where
  "initial_state dir = \<lparr>app_dir = dir, attempted_override = False, tmp = None\<rparr>"

text \<open>
  \<open>Path(app_dir) if app_dir is not None\<close>; else \<open>tmp\<close> is bound to a new temporary
  directory, which drops what it held before, and the package is written into the
  new directory. The result is the directory and what \<open>tmp\<close> holds afterwards. The
  exception handler resolves its target the same way.
\<close>

definition resolve_app_dir ::
  "env \<Rightarrow> pystr option \<Rightarrow> pystr option \<Rightarrow> world \<Rightarrow> (pystr \<times> pystr option) \<times> world" where
  "resolve_app_dir env dir t w =
     (case dir of
        Some d \<Rightarrow> ((d, t), w)
      | None \<Rightarrow>
          (let (p, w1) = TemporaryDirectory env w
           in ((p, Some p), emit (ToFiles p) (drop_tmp t w1))))"

text \<open>
  The \<open>try\<close> block of the loop body: one deploy attempt. It starts with \<open>tmp = None\<close>,
  which drops what \<open>tmp\<close> held. The result is what the block returns or raises, and
  what \<open>tmp\<close> holds afterwards.
\<close>

definition deploy_attempt ::
  "env \<Rightarrow> app_package \<Rightarrow> deploy_config \<Rightarrow> pystr \<Rightarrow> loop_state \<Rightarrow> world
     \<Rightarrow> (exn + bool) \<times> pystr option \<times> world" where
  "deploy_attempt env app_pkg deploy_cfg mode st w =
     (let w0 = drop_tmp (tmp st) w;
          ((effective_app_dir, t1), w1) = resolve_app_dir env (app_dir st) None w0;
          (r, w2) =
            (if mode = ascii ''docker''
               then deploy_docker env app_pkg deploy_cfg effective_app_dir w1
             else if mode = ascii ''cloud''
               then deploy_cloud env app_pkg deploy_cfg effective_app_dir w1
             else (Inl (Exn ValueError
                     (ascii ''Unknown Vespa deploy mode: '' @ quote @ mode @ quote)), w1))
      in (r, t1, w2))"

text \<open>What an iteration ends with: \<open>return\<close>, \<open>raise\<close> or \<open>continue\<close>.\<close>

datatype outcome = Return bool | Raise exn | Continue

text \<open>The \<open>except Exception as e\<close> block.\<close>

definition handle_failure ::
  "env \<Rightarrow> app_package \<Rightarrow> loop_state \<Rightarrow> exn \<Rightarrow> world \<Rightarrow> outcome \<times> loop_state \<times> world" where
  "handle_failure env app_pkg st e w =
     (let msg = message e
      in if looks_like_cluster_removal_error msg \<and> \<not> attempted_override st then
           let until = date_add_days (today env) 7
           in case confirm_cluster_removal env msg until w of
                (Inl e2, w1) \<Rightarrow> (Raise e2, st, w1)
              | (Inr confirmed, w1) \<Rightarrow>
                  if \<not> confirmed then
                    (Return False, st,
                     emit (Log WARNING
                       (ascii ''Skipping Vespa deploy to avoid content cluster removal; '' @
                        ascii ''feeding/query may fail until the app is deployed.'')) w1)
                  else
                    let ((target_dir, t2), w2) = resolve_app_dir env (app_dir st) (tmp st) w1;
                        w3 = write_validation_overrides target_dir until w2
                    in (Continue,
                        \<lparr>app_dir = Some target_dir, attempted_override = True, tmp = t2\<rparr>, w3)
         else (Raise e, st, w))"

definition loop_body ::
  "env \<Rightarrow> app_package \<Rightarrow> deploy_config \<Rightarrow> pystr \<Rightarrow> loop_state \<Rightarrow> world
     \<Rightarrow> outcome \<times> loop_state \<times> world" where
  "loop_body env app_pkg deploy_cfg mode st w =
     (case deploy_attempt env app_pkg deploy_cfg mode st w of
        (Inr b, t1, w1) \<Rightarrow> (Return b, st\<lparr>tmp := t1\<rparr>, w1)
      | (Inl e, t1, w1) \<Rightarrow> handle_failure env app_pkg (st\<lparr>tmp := t1\<rparr>) e w1)"

text \<open>
  \<open>while True\<close>: the body is run again exactly when it ends with \<open>continue\<close>. When the
  function returns, its variables go and \<open>tmp\<close> drops what it holds. When it raises,
  the traceback of the exception keeps the variables, so nothing is dropped by then.
\<close>

function deploy_loop ::
  "env \<Rightarrow> app_package \<Rightarrow> deploy_config \<Rightarrow> pystr \<Rightarrow> loop_state \<Rightarrow> world
     \<Rightarrow> (exn + bool) \<times> world" where
  "deploy_loop env app_pkg deploy_cfg mode st w =
     (case loop_body env app_pkg deploy_cfg mode st w of
        (Return b, st1, w1) \<Rightarrow> (Inr b, drop_tmp (tmp st1) w1)
      | (Raise e, st1, w1) \<Rightarrow> (Inl e, w1)
      | (Continue, st1, w1) \<Rightarrow> deploy_loop env app_pkg deploy_cfg mode st1 w1)"
  by pat_completeness auto
termination
proof (relation "measure (\<lambda>(env, app_pkg, deploy_cfg, mode, st, w).
                   if attempted_override st then 0 else 1)")
  show "wf (measure (\<lambda>(env :: env, app_pkg :: app_package, deploy_cfg :: deploy_config,
                       mode :: pystr, st :: loop_state, w :: world).
                   if attempted_override st then 0 else (1::nat)))"
    by simp
next
  fix env app_pkg deploy_cfg mode st w x y st1 w1
  assume "(x, y) = loop_body env app_pkg deploy_cfg mode st w" and "(st1, w1) = y"
    and "x = Continue"
  then have "loop_body env app_pkg deploy_cfg mode st w = (Continue, st1, w1)"
    by simp
  then have "attempted_override st1 \<and> \<not> attempted_override st"
    by (auto simp: loop_body_def handle_failure_def Let_def
             split: prod.splits sum.splits if_splits)
  then show "((env, app_pkg, deploy_cfg, mode, st1, w1), env, app_pkg, deploy_cfg, mode, st, w)
      \<in> measure (\<lambda>(env, app_pkg, deploy_cfg, mode, st, w).
                   if attempted_override st then 0 else 1)"
    by simp
qed

text \<open>How many times the loop body runs.\<close>

function loop_iterations ::
  "env \<Rightarrow> app_package \<Rightarrow> deploy_config \<Rightarrow> pystr \<Rightarrow> loop_state \<Rightarrow> world \<Rightarrow> nat" where
  "loop_iterations env app_pkg deploy_cfg mode st w =
     (case loop_body env app_pkg deploy_cfg mode st w of
        (Return b, st1, w1) \<Rightarrow> 1
      | (Raise e, st1, w1) \<Rightarrow> 1
      | (Continue, st1, w1) \<Rightarrow> Suc (loop_iterations env app_pkg deploy_cfg mode st1 w1))"
  by pat_completeness auto
termination
proof (relation "measure (\<lambda>(env, app_pkg, deploy_cfg, mode, st, w).
                   if attempted_override st then 0 else 1)")
  show "wf (measure (\<lambda>(env :: env, app_pkg :: app_package, deploy_cfg :: deploy_config,
                       mode :: pystr, st :: loop_state, w :: world).
                   if attempted_override st then 0 else (1::nat)))"
    by simp
next
  fix env app_pkg deploy_cfg mode st w x y st1 w1
  assume "(x, y) = loop_body env app_pkg deploy_cfg mode st w" and "(st1, w1) = y"
    and "x = Continue"
  then have "loop_body env app_pkg deploy_cfg mode st w = (Continue, st1, w1)"
    by simp
  then have "attempted_override st1 \<and> \<not> attempted_override st"
    by (auto simp: loop_body_def handle_failure_def Let_def
             split: prod.splits sum.splits if_splits)
  then show "((env, app_pkg, deploy_cfg, mode, st1, w1), env, app_pkg, deploy_cfg, mode, st, w)
      \<in> measure (\<lambda>(env, app_pkg, deploy_cfg, mode, st, w).
                   if attempted_override st then 0 else 1)"
    by simp
qed

declare deploy_loop.simps [simp del] loop_iterations.simps [simp del]

text \<open>\<open>if deploy_config is None: deploy_config = DeployConfig()\<close>, and the mode.\<close>

definition config_or_default :: "env \<Rightarrow> deploy_config option \<Rightarrow> deploy_config" where
  "config_or_default env deploy_cfg = (case deploy_cfg of None \<Rightarrow> DeployConfig env | Some c \<Rightarrow> c)"

definition deploy_mode :: "deploy_config \<Rightarrow> pystr" where
  "deploy_mode cfg = (if is_local_mode cfg then ascii ''docker'' else ascii ''cloud'')"

definition deploy_app_package ::
  "env \<Rightarrow> pystr option \<Rightarrow> app_package \<Rightarrow> deploy_config option \<Rightarrow> world
     \<Rightarrow> (exn + bool) \<times> world" where
  "deploy_app_package env dir app_pkg deploy_cfg w =
     (let cfg = config_or_default env deploy_cfg;
          mode = deploy_mode cfg
      in deploy_loop env app_pkg cfg mode (initial_state dir) w)"

text \<open>How many times the loop body runs in a call of \<open>deploy_app_package\<close>.\<close>

definition deploy_app_package_iterations ::
  "env \<Rightarrow> pystr option \<Rightarrow> app_package \<Rightarrow> deploy_config option \<Rightarrow> world \<Rightarrow> nat" where
  "deploy_app_package_iterations env dir app_pkg deploy_cfg w =
     (let cfg = config_or_default env deploy_cfg;
          mode = deploy_mode cfg
      in loop_iterations env app_pkg cfg mode (initial_state dir) w)"

section \<open>Splitting text into overlapping chunks\<close>

text \<open>\<open>xs[i:j]\<close> for integers \<open>i\<close> and \<open>j\<close>: a negative index counts from the end.\<close>

definition slice_index :: "nat \<Rightarrow> int \<Rightarrow> nat" where
  "slice_index n i = (if i < 0 then nat (max (i + int n) 0) else min (nat i) n)"

definition slice :: "'a list \<Rightarrow> int \<Rightarrow> int \<Rightarrow> 'a list" where
  "slice xs i j =
     (let a = slice_index (length xs) i; b = slice_index (length xs) j
      in take (b - a) (drop a xs))"

text \<open>
  The \<open>while\<close> loop of \<open>chunks\<close>. Nothing in the loop itself makes \<open>start\<close> grow, so
  it is a partial function: \<open>None\<close> stands for a loop that does not end.
\<close>

partial_function (option) chunk_loop ::
  "pystr list \<Rightarrow> int \<Rightarrow> int \<Rightarrow> int \<Rightarrow> pystr list \<Rightarrow> pystr list option" where
  "chunk_loop words chunk_size overlap start chunk_list =
     (if start < int (length words) then
        chunk_loop words chunk_size overlap (start + (chunk_size - overlap))
          (chunk_list @
             [join (ascii '' '')
                (slice words start (min (start + chunk_size) (int (length words))))])
      else Some chunk_list)"

declare chunk_loop.simps [code]

definition chunks :: "pystr \<Rightarrow> int \<Rightarrow> int \<Rightarrow> (exn + pystr list) option" where
  "chunks text chunk_size overlap =
     (if chunk_size \<le> 0
        then Some (Inl (Exn ValueError (ascii ''chunk_size must be greater than 0'')))
      else if overlap < 0
        then Some (Inl (Exn ValueError (ascii ''overlap must be non-negative'')))
      else if overlap \<ge> chunk_size
        then Some (Inl (Exn ValueError (ascii ''overlap must be less than chunk_size'')))
      else
        let words = split text; word_count = int (length words)
        in if word_count \<le> chunk_size then Some (Inr [text])
           else map_option Inr (chunk_loop words chunk_size overlap 0 []))"

section \<open>What a trace shows\<close>

text \<open>
  The events of a deploy attempt: every event the \<open>try\<close> block can record. The
  confirmation gate records none of them, and the attempt records none of the gate's
  (what it prints, the prompt, the line read, a warning) and writes no file itself.
\<close>

definition attempt_event :: "event \<Rightarrow> bool" where
  "attempt_event ev =
     (case ev of MkTemp p \<Rightarrow> True | Cleanup p \<Rightarrow> True | ToFiles p \<Rightarrow> True
      | Construct c k \<Rightarrow> True | Deploy c \<Rightarrow> True | SetAttr a v \<Rightarrow> True
      | Log l t \<Rightarrow> l \<noteq> WARNING | _ \<Rightarrow> False)"

definition is_write :: "event \<Rightarrow> bool" where
  "is_write ev = (case ev of WriteText p c \<Rightarrow> True | _ \<Rightarrow> False)"

definition is_construct :: "event \<Rightarrow> bool" where
  "is_construct ev = (case ev of Construct c k \<Rightarrow> True | _ \<Rightarrow> False)"

definition gate_event :: "event \<Rightarrow> bool" where
  "gate_event ev =
     (case ev of Print t \<Rightarrow> True | Prompt t \<Rightarrow> True | ReadLine l \<Rightarrow> True
      | Log l t \<Rightarrow> l = WARNING | _ \<Rightarrow> False)"

text \<open>
  \<open>quiet w w'\<close>: from \<open>w\<close> to \<open>w'\<close> nothing was read from standard input and only
  events of a deploy attempt were recorded.
\<close>

definition quiet :: "world \<Rightarrow> world \<Rightarrow> bool" where
  "quiet w w' =
     (stdin w' = stdin w \<and> (\<exists>evs. trace w' = trace w @ evs \<and> list_all attempt_event evs))"

text \<open>
  Whether a file is on disk after the events of a trace: it has been written, and no
  directory above it has been removed since.
\<close>

definition file_step :: "pystr \<Rightarrow> bool \<Rightarrow> event \<Rightarrow> bool" where
  "file_step path present ev =
     (case ev of
        WriteText p c \<Rightarrow> (if p = path then True else present)
      | Cleanup d \<Rightarrow> (if prefix (d @ ascii ''/'') path then False else present)
      | _ \<Rightarrow> present)"

definition file_present :: "pystr \<Rightarrow> event list \<Rightarrow> bool" where
  "file_present path tr = foldl (file_step path) False tr"

text \<open>The writes, removals and deploy calls of a trace, in order.\<close>

definition disk_event :: "event \<Rightarrow> bool" where
  "disk_event ev =
     (case ev of WriteText p c \<Rightarrow> True | Cleanup d \<Rightarrow> True | MkTemp d \<Rightarrow> True
      | Deploy c \<Rightarrow> True | _ \<Rightarrow> False)"

section \<open>Example clients and environments\<close>

text \<open>Concrete clients, configurations and environments on which the theorems are run.\<close>

definition example_app :: vespa_app where
  "example_app =
     \<lparr>url = AStr (ascii ''http://localhost''), port = AOther (ascii ''8080''), cert = ANone\<rparr>"

definition refusal :: exn where
  "refusal = Exn OtherError (ascii ''Content cluster docs is removed'')"

definition connection_refused :: exn where
  "connection_refused = Exn OtherError (ascii ''Connection refused'')"

definition unexpected_keyword :: exn where
  "unexpected_keyword = Exn TypeError (ascii ''deploy() got an unexpected keyword argument'')"

text \<open>
  A client for the application root it was constructed with, which refuses to remove
  a content cluster unless \<open>validation-overrides.xml\<close> is on disk in that directory
  when it is called.
\<close>

definition client_requiring_override :: "pystr \<Rightarrow> deployer" where
  "client_requiring_override root =
     \<lparr>has_attr = (\<lambda>a. False), setattr_raises = (\<lambda>a. False),
      deploy = (\<lambda>c tr. if file_present (path_join root (ascii ''validation-overrides.xml'')) tr
                        then Inr example_app else Inl refusal)\<rparr>"

text \<open>A client that fails every deploy call with the given exception.\<close>

definition client_failing :: "exn \<Rightarrow> pystr \<Rightarrow> deployer" where
  "client_failing e root =
     \<lparr>has_attr = (\<lambda>a. False), setattr_raises = (\<lambda>a. False), deploy = (\<lambda>c tr. Inl e)\<rparr>"

text \<open>A client whose \<open>deploy\<close> only knows the keyword \<open>application_root\<close>.\<close>

definition client_root_only :: deployer where
  "client_root_only =
     \<lparr>has_attr = (\<lambda>a. False), setattr_raises = (\<lambda>a. False),
      deploy = (\<lambda>c tr. case c of ByRoot r \<Rightarrow> Inr example_app | _ \<Rightarrow> Inl unexpected_keyword)\<rparr>"

text \<open>A client class whose constructor takes \<open>image\<close> and \<open>application_root\<close>.\<close>

definition example_class :: "(pystr \<Rightarrow> deployer) \<Rightarrow> client_class" where
  "example_class client =
     \<lparr>cls_name = ascii ''VespaDocker'',
      init_params = [ascii ''image'', ascii ''application_root''],
      construct = (\<lambda>kwargs tr.
        Inr (client (case map_of kwargs (ascii ''application_root'') of
                       Some (PStr r) \<Rightarrow> r
                     | _ \<Rightarrow> [])))\<rparr>"

definition local_config :: deploy_config where
  "local_config =
     \<lparr>is_local_mode = True, get_configserver_url = ascii ''http://localhost:19071'',
      get_cloud_tenant = None, get_cloud_application = None, get_cloud_instance = None,
      get_cloud_api_key_path = None, get_cloud_api_key = None\<rparr>"

definition cloud_config_without_tenant :: deploy_config where
  "cloud_config_without_tenant = local_config\<lparr>is_local_mode := False\<rparr>"

text \<open>
  A console that prints every text, and one that reads markup and raises for a text
  with a closing tag for \<open>docs\<close>.
\<close>

definition plain_console :: "pystr \<Rightarrow> exn option" where
  "plain_console t = None"

definition markup_console :: "pystr \<Rightarrow> exn option" where
  "markup_console t =
     (if str_contains (ascii ''[/docs]'') t
      then Some (Exn MarkupError (ascii ''closing tag [/docs] does not match any open tag''))
      else None)"

definition example_env :: "bool \<Rightarrow> (pystr \<Rightarrow> deployer) \<Rightarrow> env" where
  "example_env tty client =
     \<lparr>stdin_isatty = tty, today = \<lparr>year = 2026, month = 12, day = 28\<rparr>,
      tmp_name = (\<lambda>n. ascii ''/tmp/tmp'' @ zero_pad 3 n),
      resolve_vespa_docker_class = example_class client, VespaCloud = example_class client,
      DEFAULT_VESPA_DOCKER_IMAGE = ascii ''vespaengine/vespa:latest'',
      DeployConfig = local_config, print_raises = plain_console\<rparr>"

definition example_world :: "pystr list \<Rightarrow> world" where
  "example_world lines = \<lparr>stdin = lines, tmp_count = 0, trace = []\<rparr>"

definition example_package :: app_package where
  "example_package = ApplicationPackage (ascii ''docs'')"

section \<open>Properties of the string operations\<close>

lemma str_contains_sublist: "str_contains needle s = sublist needle s"
  by (induction s) (simp_all add: sublist_Cons_right)

lemma str_contains_iff: "str_contains needle s \<longleftrightarrow> (\<exists>pre suf. s = pre @ needle @ suf)"
  by (simp add: str_contains_sublist sublist_def)

lemma str_contains_lower:
  assumes "lower needle = needle"
  shows "str_contains needle (lower s) = contains_ignoring_case needle s"
proof
  assume "str_contains needle (lower s)"
  then obtain pre suf where "map lower_char s = pre @ needle @ suf"
    by (auto simp: str_contains_iff lower_def)
  then obtain a bc where 1: "s = a @ bc" "map lower_char bc = needle @ suf"
    by (metis map_eq_append_conv)
  from 1(2) obtain b c where 2: "bc = b @ c" "map lower_char b = needle"
    by (metis map_eq_append_conv)
  from 1 2 have "s = a @ b @ c" "map lower_char b = needle" by simp_all
  then show "contains_ignoring_case needle s"
    using assms by (auto simp: contains_ignoring_case_def lower_def)
next
  assume "contains_ignoring_case needle s"
  then obtain pre mid suf where "s = pre @ mid @ suf" "lower mid = needle"
    using assms by (auto simp: contains_ignoring_case_def)
  then have "lower s = lower pre @ needle @ lower suf"
    by (simp add: lower_def)
  then show "str_contains needle (lower s)"
    unfolding str_contains_iff by blast
qed

lemma not_contains_ignoring_case_Nil: "needle \<noteq> [] \<Longrightarrow> \<not> contains_ignoring_case needle []"
  by (auto simp: contains_ignoring_case_def lower_def)

lemma classifier_examples:
  "looks_like_cluster_removal_error (ascii ''Deploy refused: CONTENT-CLUSTER-REMOVAL needed'')"
  "looks_like_cluster_removal_error (ascii ''Removed: Content Cluster music'')"
  "\<not> looks_like_cluster_removal_error (ascii ''content cluster music is fine'')"
  "\<not> looks_like_cluster_removal_error (ascii ''Missing env var: VESPA_CLOUD_TENANT'')"
  by code_simp+

lemma is_space_lower_char: "is_space (lower_char c) = is_space c"
  by (auto simp: lower_char_def is_space_def)

lemma strip_core:
  assumes "list_all is_space pre" "list_all is_space suf"
    and "core \<noteq> []" "\<not> is_space (hd core)" "\<not> is_space (last core)"
  shows "strip (pre @ core @ suf) = core"
proof -
  have l: "lstrip (pre @ core @ suf) = core @ suf"
    using assms(1,3,4) unfolding lstrip_def
    by (cases core) (simp_all add: dropWhile_append list_all_iff)
  have "dropWhile is_space (rev suf @ rev core) = rev core"
    using assms(2,3,5)
    by (cases core rule: rev_cases) (simp_all add: dropWhile_append list_all_iff)
  then show ?thesis
    by (simp add: strip_def rstrip_def l)
qed

lemma strip_decomposition:
  "\<exists>pre suf. line = pre @ strip line @ suf \<and> list_all is_space pre \<and> list_all is_space suf"
proof -
  let ?pre = "takeWhile is_space line"
  let ?rest = "dropWhile is_space line"
  let ?suf = "rev (takeWhile is_space (rev ?rest))"
  have "rev ?rest = takeWhile is_space (rev ?rest) @ dropWhile is_space (rev ?rest)"
    by simp
  then have "?rest = strip line @ ?suf"
    by (metis lstrip_def rev_append rev_rev_ident rstrip_def strip_def)
  then have "line = ?pre @ strip line @ ?suf"
    by (metis takeWhile_dropWhile_id)
  moreover have "list_all is_space ?pre" "list_all is_space ?suf"
    by (auto simp: list_all_iff dest: set_takeWhileD)
  ultimately show ?thesis by blast
qed

lemma ascii_y: "ascii ''y'' = [121]" "ascii ''yes'' = [121, 101, 115]"
  by (simp_all add: ascii_def)

lemma lower_y_or_yes_ends:
  assumes "lower core = ascii ''y'' \<or> lower core = ascii ''yes''"
  shows "core \<noteq> [] \<and> \<not> is_space (hd core) \<and> \<not> is_space (last core)"
proof -
  have n: "core \<noteq> []" using assms by (auto simp: lower_def ascii_y)
  have h: "lower_char (hd core) = 121"
    using assms n by (cases core) (auto simp: lower_def ascii_y)
  have "lower_char (last core) = last (lower core)"
    using n by (simp add: lower_def last_map)
  then have la: "lower_char (last core) = 121 \<or> lower_char (last core) = 115"
    using assms by (auto simp: ascii_y)
  have "\<not> is_space (lower_char (hd core))" "\<not> is_space (lower_char (last core))"
    using h la by (auto simp: is_space_def)
  then show ?thesis using n by (simp add: is_space_lower_char)
qed

lemma answer_affirmative:
  "lower (strip line) \<in> {ascii ''y'', ascii ''yes''} \<longleftrightarrow> affirmative line"
proof
  assume a: "lower (strip line) \<in> {ascii ''y'', ascii ''yes''}"
  obtain pre suf where "line = pre @ strip line @ suf" "list_all is_space pre" "list_all is_space suf"
    using strip_decomposition by blast
  then show "affirmative line"
    using a unfolding affirmative_def by blast
next
  assume "affirmative line"
  then obtain pre core suf where d: "line = pre @ core @ suf" "list_all is_space pre"
      "list_all is_space suf" and c: "lower core = ascii ''y'' \<or> lower core = ascii ''yes''"
    unfolding affirmative_def by blast
  have "strip line = core"
    using strip_core[OF d(2,3)] lower_y_or_yes_ends[OF c] d(1) by simp
  then show "lower (strip line) \<in> {ascii ''y'', ascii ''yes''}"
    using c by simp
qed

section \<open>Properties of the classifier and the confirmation gate\<close>

text \<open>
  C2. The failure classifier returns true for a message if and only if the message
  contains the token \<open>content-cluster-removal\<close> in any letter case, or contains both
  \<open>content cluster\<close> and \<open>removed\<close> in any letter case and in any order; for the
  empty string it returns false.
\<close>

theorem classifier_iff_spec:
  "looks_like_cluster_removal_error msg = spec_classify msg
   \<and> looks_like_cluster_removal_error [] = False"
proof -
  have t: "lower (ascii ''content-cluster-removal'') = ascii ''content-cluster-removal''"
    by (simp add: lower_def lower_char_def ascii_def)
  have c: "lower (ascii ''content cluster'') = ascii ''content cluster''"
    by (simp add: lower_def lower_char_def ascii_def)
  have r: "lower (ascii ''removed'') = ascii ''removed''"
    by (simp add: lower_def lower_char_def ascii_def)
  have n: "ascii ''content-cluster-removal'' \<noteq> []" "ascii ''content cluster'' \<noteq> []"
    by (simp_all add: ascii_def)
  have e: "\<not> spec_classify []"
    by (simp add: spec_classify_def not_contains_ignoring_case_Nil n)
  have "looks_like_cluster_removal_error msg = spec_classify msg"
  proof (cases "msg = []")
    case True
    then show ?thesis using e by (simp add: looks_like_cluster_removal_error_def)
  next
    case False
    then show ?thesis
      by (simp add: looks_like_cluster_removal_error_def spec_classify_def Let_def
            CLUSTER_REMOVAL_ALLOWLIST_TOKEN_def
            str_contains_lower[OF t] str_contains_lower[OF c] str_contains_lower[OF r])
  qed
  then show ?thesis by (simp add: looks_like_cluster_removal_error_def)
qed

text \<open>
  C5. Whatever the message and the expiry date, when standard input is not a
  terminal the confirmation gate returns false, and all it does is log one warning:
  it prints no prompt and reads no line, so the input is left as it was.
\<close>

theorem gate_denies_without_terminal:
  "\<not> stdin_isatty env \<Longrightarrow>
     (\<exists>text. confirm_cluster_removal env msg until w =
               (Inr False, w\<lparr>trace := trace w @ [Log WARNING text]\<rparr>))"
  unfolding confirm_cluster_removal_def emit_def by (simp, blast)

theorem gate_denies_without_terminal_witness:
  "\<not> stdin_isatty (example_env False client_requiring_override)
   \<and> fst (confirm_cluster_removal (example_env False client_requiring_override)
            (message refusal) \<lparr>year = 2027, month = 1, day = 4\<rparr> (example_world [ascii ''y'']))
       = Inr False
   \<and> stdin (snd (confirm_cluster_removal (example_env False client_requiring_override)
            (message refusal) \<lparr>year = 2027, month = 1, day = 4\<rparr> (example_world [ascii ''y''])))
       = [ascii ''y'']"
  using gate_denies_without_terminal
          [of "example_env False client_requiring_override" "message refusal"
              "\<lparr>year = 2027, month = 1, day = 4\<rparr>" "example_world [ascii ''y'']"]
  by (auto simp: example_env_def example_world_def)

lemma confirm_with_line:
  assumes "stdin_isatty env" and "\<forall>t\<in>set (gate_texts msg until). print_raises env t = None"
    and "stdin w = line # rest"
  shows "fst (confirm_cluster_removal env msg until w) = Inr (affirmative line)"
    and "stdin (snd (confirm_cluster_removal env msg until w)) = rest"
  using assms answer_affirmative[of line]
  by (simp_all add: confirm_cluster_removal_def console_print_def console_input_def emit_def
        gate_texts_def)

text \<open>
  On a terminal the gate returns, rather than raises, exactly when the console takes
  its texts and there is a line to read.
\<close>

lemma gate_returns_iff:
  assumes "stdin_isatty env"
  shows "(\<exists>b. fst (confirm_cluster_removal env msg until w) = Inr b) \<longleftrightarrow>
           ((\<forall>t\<in>set (gate_texts msg until). print_raises env t = None) \<and> stdin w \<noteq> [])"
  using assms
  by (auto simp: confirm_cluster_removal_def console_print_def console_input_def emit_def
        gate_texts_def split: option.splits list.splits)

text \<open>
  C6. Whatever the message and the expiry date, when standard input is a terminal
  and the gate reads a line (the console takes the texts the gate prints and the
  input has a line), it returns true if and only if that line is, once the whitespace
  around it is removed, \<open>y\<close> or \<open>yes\<close> in any letter case. The empty line, a line of
  spaces, \<open>n\<close>, \<open>no\<close> and \<open>Yes!\<close> are not such lines; \<open>y\<close> followed by a no-break
  space is one.
\<close>

theorem gate_confirms_iff_affirmative:
  "stdin_isatty env \<Longrightarrow> \<forall>t\<in>set (gate_texts msg until). print_raises env t = None \<Longrightarrow>
   stdin w = line # rest \<Longrightarrow>
     fst (confirm_cluster_removal env msg until w) = Inr (affirmative line)
     \<and> stdin (snd (confirm_cluster_removal env msg until w)) = rest
     \<and> \<not> affirmative []
     \<and> \<not> affirmative (ascii ''   '')
     \<and> \<not> affirmative (ascii ''n'')
     \<and> \<not> affirmative (ascii ''no'')
     \<and> \<not> affirmative (ascii ''Yes!'')
     \<and> affirmative (ascii '' YES '')
     \<and> affirmative (ascii ''y'' @ [0xA0])"
proof -
  have ex: "\<not> affirmative []" "\<not> affirmative (ascii ''   '')" "\<not> affirmative (ascii ''n'')"
      "\<not> affirmative (ascii ''no'')" "\<not> affirmative (ascii ''Yes!'')"
      "affirmative (ascii '' YES '')" "affirmative (ascii ''y'' @ [0xA0])"
    unfolding answer_affirmative[symmetric] by code_simp+
  assume "stdin_isatty env" "\<forall>t\<in>set (gate_texts msg until). print_raises env t = None"
    "stdin w = line # rest"
  then have "fst (confirm_cluster_removal env msg until w) = Inr (affirmative line)"
     "stdin (snd (confirm_cluster_removal env msg until w)) = rest"
    by (rule confirm_with_line)+
  then show ?thesis using ex by simp
qed

theorem gate_confirms_iff_affirmative_witness:
  "stdin_isatty (example_env True client_requiring_override)
   \<and> list_all (\<lambda>t. print_raises (example_env True client_requiring_override) t = None)
       (gate_texts (message refusal) \<lparr>year = 2027, month = 1, day = 4\<rparr>)
   \<and> stdin (example_world [ascii '' Yes '', ascii ''n'']) = ascii '' Yes '' # [ascii ''n'']
   \<and> fst (confirm_cluster_removal (example_env True client_requiring_override)
            (message refusal) \<lparr>year = 2027, month = 1, day = 4\<rparr>
            (example_world [ascii '' Yes '', ascii ''n''])) = Inr True
   \<and> stdin (snd (confirm_cluster_removal (example_env True client_requiring_override)
            (message refusal) \<lparr>year = 2027, month = 1, day = 4\<rparr>
            (example_world [ascii '' Yes '', ascii ''n'']))) = [ascii ''n'']"
proof -
  have t: "stdin_isatty (example_env True client_requiring_override)"
    by (simp add: example_env_def)
  have p: "\<forall>t\<in>set (gate_texts (message refusal) \<lparr>year = 2027, month = 1, day = 4\<rparr>).
             print_raises (example_env True client_requiring_override) t = None"
    by (simp add: example_env_def plain_console_def)
  have l: "stdin (example_world [ascii '' Yes '', ascii ''n'']) = ascii '' Yes '' # [ascii ''n'']"
    by (simp add: example_world_def)
  have a: "affirmative (ascii '' Yes '')"
    unfolding answer_affirmative[symmetric] by code_simp
  show ?thesis
    using gate_confirms_iff_affirmative[OF t p l] t p l a
    by (simp add: list_all_iff)
qed

section \<open>Properties of the invoker\<close>

text \<open>
  C7. An exception is a shape mismatch when it is a \<open>TypeError\<close> or its message
  contains the missing-package text. If the call passing the package fails with a
  shape mismatch and the call passing the application root succeeds, the invoker
  returns the second call's result, having made these two calls and no other. A
  failure that is not a shape mismatch is raised as it is, by the first call with no
  second call made, and by the second call with no third call made. After two shape
  mismatches the invoker returns or raises whatever the call without arguments does.
\<close>

theorem invoker_fallback_and_propagation:
  "should_fallback e =
     (exn_class e = TypeError \<or> (\<exists>pre suf. message e = pre @ MISSING_PACKAGE_ERROR @ suf))
   \<and> (deploy d (ByPackage pkg) (trace w) = Inl e1 \<longrightarrow> should_fallback e1 \<longrightarrow>
        deploy d (ByRoot root) (trace w @ [Deploy (ByPackage pkg)]) = Inr r \<longrightarrow>
        deploy_with_pyvespa d pkg root w =
          (Inr r, w\<lparr>trace := trace w @ [Deploy (ByPackage pkg), Deploy (ByRoot root)]\<rparr>))
   \<and> (deploy d (ByPackage pkg) (trace w) = Inl e1 \<longrightarrow> \<not> should_fallback e1 \<longrightarrow>
        deploy_with_pyvespa d pkg root w =
          (Inl e1, w\<lparr>trace := trace w @ [Deploy (ByPackage pkg)]\<rparr>))
   \<and> (deploy d (ByPackage pkg) (trace w) = Inl e1 \<longrightarrow> should_fallback e1 \<longrightarrow>
        deploy d (ByRoot root) (trace w @ [Deploy (ByPackage pkg)]) = Inl e2 \<longrightarrow>
        \<not> should_fallback e2 \<longrightarrow>
        deploy_with_pyvespa d pkg root w =
          (Inl e2, w\<lparr>trace := trace w @ [Deploy (ByPackage pkg), Deploy (ByRoot root)]\<rparr>))
   \<and> (deploy d (ByPackage pkg) (trace w) = Inl e1 \<longrightarrow> should_fallback e1 \<longrightarrow>
        deploy d (ByRoot root) (trace w @ [Deploy (ByPackage pkg)]) = Inl e2 \<longrightarrow>
        should_fallback e2 \<longrightarrow>
        (\<exists>w3. deploy_with_pyvespa d pkg root w =
           (deploy d NoArgs (trace w3), w3\<lparr>trace := trace w3 @ [Deploy NoArgs]\<rparr>)))"
proof -
  have "should_fallback e =
     (exn_class e = TypeError \<or> (\<exists>pre suf. message e = pre @ MISSING_PACKAGE_ERROR @ suf))"
    by (simp add: should_fallback_def str_contains_iff)
  moreover have "deploy d (ByPackage pkg) (trace w) = Inl e1 \<longrightarrow> should_fallback e1 \<longrightarrow>
        deploy d (ByRoot root) (trace w @ [Deploy (ByPackage pkg)]) = Inl e2 \<longrightarrow>
        should_fallback e2 \<longrightarrow>
        (\<exists>w3. deploy_with_pyvespa d pkg root w =
           (deploy d NoArgs (trace w3), w3\<lparr>trace := trace w3 @ [Deploy NoArgs]\<rparr>))"
    unfolding deploy_with_pyvespa_def call_deploy_def emit_def Let_def by (simp, blast)
  ultimately show ?thesis
    by (simp add: deploy_with_pyvespa_def call_deploy_def emit_def)
qed

theorem invoker_fallback_and_propagation_witness:
  "should_fallback unexpected_keyword
   \<and> \<not> should_fallback connection_refused
   \<and> deploy_with_pyvespa client_root_only example_package (ascii ''/app'') (example_world []) =
       (Inr example_app,
        (example_world [])\<lparr>trace := [Deploy (ByPackage example_package), Deploy (ByRoot (ascii ''/app''))]\<rparr>)
   \<and> deploy_with_pyvespa (client_failing connection_refused []) example_package (ascii ''/app'')
        (example_world []) =
       (Inl connection_refused,
        (example_world [])\<lparr>trace := [Deploy (ByPackage example_package)]\<rparr>)"
  using invoker_fallback_and_propagation
          [where e = unexpected_keyword and d = client_root_only and pkg = example_package
             and w = "example_world []" and ?e1.0 = unexpected_keyword and root = "ascii ''/app''"
             and r = example_app and ?e2.0 = connection_refused]
        invoker_fallback_and_propagation
          [where e = connection_refused and d = "client_failing connection_refused []"
             and pkg = example_package and w = "example_world []"
             and ?e1.0 = connection_refused and root = "ascii ''/app''" and r = example_app
             and ?e2.0 = connection_refused]
  by (simp add: client_root_only_def client_failing_def example_world_def
        unexpected_keyword_def connection_refused_def MISSING_PACKAGE_ERROR_def ascii_def)

section \<open>What a deploy attempt records\<close>

lemma quiet_refl: "quiet w w"
  by (simp add: quiet_def)

lemma quiet_emit: "quiet w w1 \<Longrightarrow> attempt_event ev \<Longrightarrow> quiet w (emit ev w1)"
  by (auto simp: quiet_def emit_def)

lemma quiet_tmp_count: "quiet w w1 \<Longrightarrow> quiet w (w1\<lparr>tmp_count := n\<rparr>)"
  by (simp add: quiet_def)

lemma quiet_drop_tmp: "quiet w w1 \<Longrightarrow> quiet w (drop_tmp t w1)"
  by (simp add: drop_tmp_def quiet_emit attempt_event_def split: option.splits)

lemma quiet_call_deploy: "quiet w w1 \<Longrightarrow> quiet w (snd (call_deploy d c w1))"
  by (simp add: call_deploy_def quiet_emit attempt_event_def)

lemma quiet_set_if_present: "quiet w w1 \<Longrightarrow> quiet w (set_if_present d w1 av)"
  by (simp add: set_if_present_def quiet_emit attempt_event_def)

lemma quiet_foldl_set: "quiet w w1 \<Longrightarrow> quiet w (foldl (set_if_present d) w1 avs)"
  by (induction avs arbitrary: w1) (simp_all add: quiet_set_if_present)

lemma quiet_deploy_with_pyvespa:
  assumes q: "quiet w w1"
  shows "quiet w (snd (deploy_with_pyvespa d pkg root w1))"
proof -
  obtain r1 wa where c1: "call_deploy d (ByPackage pkg) w1 = (r1, wa)"
    by fastforce
  have qa: "quiet w wa"
    using quiet_call_deploy[OF q, of d "ByPackage pkg"] c1 by simp
  obtain r2 wb where c2: "call_deploy d (ByRoot root) wa = (r2, wb)"
    by fastforce
  have qb: "quiet w wb"
    using quiet_call_deploy[OF qa, of d "ByRoot root"] c2 by simp
  have qc: "quiet w (snd (call_deploy d NoArgs (foldl (set_if_present d) wb avs)))" for avs
    by (intro quiet_call_deploy quiet_foldl_set qb)
  show ?thesis
    using c1 c2 qa qb qc
    by (simp add: deploy_with_pyvespa_def Let_def split: sum.splits del: foldl_Cons)
qed

lemma quiet_call_construct: "quiet w w1 \<Longrightarrow> quiet w (snd (call_construct cls kwargs w1))"
  by (simp add: call_construct_def quiet_emit attempt_event_def)

lemma quiet_set_vespa_endpoint:
  "quiet w w1 \<Longrightarrow> quiet w (set_vespa_endpoint_env_from_app app w1)"
  by (auto simp: set_vespa_endpoint_env_from_app_def Let_def attempt_event_def
        intro!: quiet_emit split: attr_val.splits)

lemma quiet_after_client:
  assumes q: "quiet w w1"
  shows "quiet w (snd (case call_construct cls kwargs w1 of
           (Inl e, w2) \<Rightarrow> (Inl e, w2)
         | (Inr client, w2) \<Rightarrow>
             (case deploy_with_pyvespa client pkg root w2 of
                (Inl e, w3) \<Rightarrow> (Inl e, w3)
              | (Inr vespa_app, w3) \<Rightarrow>
                  (Inr True,
                   emit (Log SUCCESS t) (set_vespa_endpoint_env_from_app vespa_app w3)))))"
proof -
  obtain rc wc where c: "call_construct cls kwargs w1 = (rc, wc)"
    by fastforce
  have qc: "quiet w wc"
    using quiet_call_construct[OF q, of cls kwargs] c by simp
  show ?thesis
  proof (cases rc)
    case (Inl e)
    then show ?thesis using c qc by simp
  next
    case (Inr client)
    obtain rd wd where d: "deploy_with_pyvespa client pkg root wc = (rd, wd)"
      by fastforce
    have qd: "quiet w wd"
      using quiet_deploy_with_pyvespa[OF qc, of client pkg root] d by simp
    have "quiet w (emit (Log SUCCESS t) (set_vespa_endpoint_env_from_app app wd))" for app
      by (intro quiet_emit quiet_set_vespa_endpoint qd) (simp add: attempt_event_def)
    then show ?thesis
      using c Inr d qd by (simp split: sum.splits)
  qed
qed

lemma quiet_deploy_docker:
  assumes q: "quiet w w1"
  shows "quiet w (snd (deploy_docker env pkg cfg root w1))"
proof -
  have "quiet w (if c then emit (Log INFO a) (emit (Log INFO b) w1) else emit (Log INFO d) w1)"
    for a b c d
    by (simp add: quiet_emit q attempt_event_def)
  then show ?thesis
    unfolding deploy_docker_def Let_def by (rule quiet_after_client)
qed

lemma quiet_deploy_cloud:
  assumes q: "quiet w w1"
  shows "quiet w (snd (deploy_cloud env pkg cfg root w1))"
proof (cases "truthy (get_cloud_tenant cfg)")
  case False
  then show ?thesis using q by (simp add: deploy_cloud_def)
next
  case True
  have "quiet w (emit (Log INFO a) (if c then emit (Log INFO b) w1 else w1))" for a b c
    by (simp add: quiet_emit q attempt_event_def)
  then have "quiet w (snd (case call_construct (VespaCloud env) kwargs
                 (emit (Log INFO a) (if c then emit (Log INFO b) w1 else w1)) of
           (Inl e, w2) \<Rightarrow> (Inl e, w2)
         | (Inr client, w2) \<Rightarrow>
             (case deploy_with_pyvespa client pkg root w2 of
                (Inl e, w3) \<Rightarrow> (Inl e, w3)
              | (Inr vespa_app, w3) \<Rightarrow>
                  (Inr True,
                   emit (Log SUCCESS t) (set_vespa_endpoint_env_from_app vespa_app w3)))))"
    for a b c kwargs t
    by (rule quiet_after_client)
  then show ?thesis
    using True unfolding deploy_cloud_def Let_def by simp
qed

lemma quiet_resolve_app_dir: "quiet w w1 \<Longrightarrow> quiet w (snd (resolve_app_dir env dir t w1))"
  by (auto simp: resolve_app_dir_def TemporaryDirectory_def Let_def attempt_event_def
        split: option.splits intro!: quiet_emit quiet_drop_tmp quiet_tmp_count)

lemma quiet_deploy_attempt:
  assumes q: "quiet w w1"
  shows "quiet w (snd (snd (deploy_attempt env pkg cfg mode st w1)))"
proof -
  obtain p t1 wr where r: "resolve_app_dir env (app_dir st) None (drop_tmp (tmp st) w1) = ((p, t1), wr)"
    by (metis prod.collapse)
  have qr: "quiet w wr"
    using quiet_resolve_app_dir[OF quiet_drop_tmp[OF q], of env "app_dir st" None "tmp st"] r
    by simp
  have qd: "quiet w (snd (deploy_docker env pkg cfg p wr))"
    by (rule quiet_deploy_docker[OF qr])
  have qc: "quiet w (snd (deploy_cloud env pkg cfg p wr))"
    by (rule quiet_deploy_cloud[OF qr])
  show ?thesis
    unfolding deploy_attempt_def Let_def r
    using qr qd qc by (auto split: prod.splits)
qed

lemma deploy_with_client_True:
  "(case call_construct cls kwargs w1 of
           (Inl e, w2) \<Rightarrow> (Inl e, w2)
         | (Inr client, w2) \<Rightarrow>
             (case deploy_with_pyvespa client pkg root w2 of
                (Inl e, w3) \<Rightarrow> (Inl e, w3)
              | (Inr vespa_app, w3) \<Rightarrow> (Inr True, f vespa_app w3))) = (Inr b, w') \<Longrightarrow> b"
  by (auto split: prod.splits sum.splits)

lemma deploy_docker_True: "deploy_docker env pkg cfg root w = (Inr b, w1) \<Longrightarrow> b"
  unfolding deploy_docker_def Let_def by (rule deploy_with_client_True)

lemma deploy_cloud_True: "deploy_cloud env pkg cfg root w = (Inr b, w1) \<Longrightarrow> b"
  unfolding deploy_cloud_def Let_def
  by (cases "truthy (get_cloud_tenant cfg)") (auto dest: deploy_with_client_True)

lemma deploy_attempt_True:
  "deploy_attempt env pkg cfg mode st w = (Inr b, t1, w1) \<Longrightarrow> b"
  unfolding deploy_attempt_def Let_def
  by (auto split: prod.splits if_splits dest: deploy_docker_True deploy_cloud_True)

text \<open>With a directory from the caller, \<open>tmp\<close> never holds anything.\<close>

lemma deploy_attempt_tmp:
  "deploy_attempt env pkg cfg mode st w = (r, t1, w1) \<Longrightarrow> app_dir st = Some d \<Longrightarrow> t1 = None"
  unfolding deploy_attempt_def Let_def
  by (auto simp: resolve_app_dir_def split: prod.splits)

lemma quiet_filter:
  assumes "quiet w w1" and "\<And>ev. attempt_event ev \<Longrightarrow> \<not> P ev"
  shows "filter P (trace w1) = filter P (trace w)"
proof -
  obtain evs where e: "trace w1 = trace w @ evs" "list_all attempt_event evs"
    using assms(1) by (auto simp: quiet_def)
  have "filter P evs = []"
    using e(2) assms(2) by (induction evs) auto
  then show ?thesis using e(1) by simp
qed

lemma quiet_no_write: "quiet w w1 \<Longrightarrow> filter is_write (trace w1) = filter is_write (trace w)"
  by (rule quiet_filter) (auto simp: attempt_event_def is_write_def split: event.splits)

lemma quiet_no_gate_event:
  "quiet w w1 \<Longrightarrow> filter gate_event (trace w1) = filter gate_event (trace w)"
  by (rule quiet_filter) (auto simp: attempt_event_def gate_event_def split: event.splits)

lemma quiet_stdin: "quiet w w1 \<Longrightarrow> stdin w1 = stdin w"
  by (simp add: quiet_def)

lemma attempt_quiet:
  "deploy_attempt env pkg cfg mode st w = (r, t1, w1) \<Longrightarrow> quiet w w1"
  using quiet_deploy_attempt[OF quiet_refl, of w env pkg cfg mode st] by simp

lemma confirm_no_write:
  "filter is_write (trace (snd (confirm_cluster_removal env msg until w))) =
     filter is_write (trace w)"
  by (simp add: confirm_cluster_removal_def console_print_def console_input_def emit_def
        is_write_def split: list.splits option.splits)

lemma drop_tmp_no_write: "filter is_write (trace (drop_tmp t w)) = filter is_write (trace w)"
  by (simp add: drop_tmp_def emit_def is_write_def split: option.splits)

lemma loop_body_second:
  assumes "attempted_override st"
  shows "loop_body env pkg cfg mode st w =
     (case deploy_attempt env pkg cfg mode st w of
        (Inr b, t1, w1) \<Rightarrow> (Return b, st\<lparr>tmp := t1\<rparr>, w1)
      | (Inl e, t1, w1) \<Rightarrow> (Raise e, st\<lparr>tmp := t1\<rparr>, w1))"
  using assms by (simp add: loop_body_def handle_failure_def split: prod.splits sum.splits)

lemma deploy_loop_second:
  assumes "attempted_override st"
  shows "deploy_loop env pkg cfg mode st w =
     (case deploy_attempt env pkg cfg mode st w of
        (Inr b, t1, w1) \<Rightarrow> (Inr b, drop_tmp t1 w1)
      | (Inl e, t1, w1) \<Rightarrow> (Inl e, w1))"
  by (subst deploy_loop.simps)
     (simp add: loop_body_second[OF assms] split: prod.splits sum.splits)

lemma loop_iterations_second:
  assumes "attempted_override st"
  shows "loop_iterations env pkg cfg mode st w = 1"
  by (subst loop_iterations.simps)
     (simp add: loop_body_second[OF assms] split: prod.splits sum.splits)

lemma loop_body_Continue:
  assumes "loop_body env pkg cfg mode st w = (Continue, st1, w1)"
  shows "attempted_override st1 \<and> \<not> attempted_override st"
  using assms
  by (auto simp: loop_body_def handle_failure_def Let_def
        split: prod.splits sum.splits if_splits)

lemma loop_iterations_le_2: "loop_iterations env pkg cfg mode st w \<le> 2"
proof -
  obtain out st1 w1 where b: "loop_body env pkg cfg mode st w = (out, st1, w1)"
    by (metis prod.collapse)
  show ?thesis
  proof (cases out)
    case Continue
    then have "attempted_override st1"
      using b loop_body_Continue by blast
    then have "loop_iterations env pkg cfg mode st1 w1 = 1"
      by (rule loop_iterations_second)
    then show ?thesis
      using b Continue by (subst loop_iterations.simps) simp
  qed (use b in \<open>subst loop_iterations.simps, simp\<close>)+
qed

lemma first_failure_not_classified:
  assumes "deploy_attempt env pkg cfg mode st w = (Inl e, t1, w1)"
    and "\<not> looks_like_cluster_removal_error (message e)"
  shows "deploy_loop env pkg cfg mode st w = (Inl e, w1)"
    and "loop_iterations env pkg cfg mode st w = 1"
proof -
  have b: "loop_body env pkg cfg mode st w = (Raise e, st\<lparr>tmp := t1\<rparr>, w1)"
    using assms by (simp add: loop_body_def handle_failure_def)
  show "deploy_loop env pkg cfg mode st w = (Inl e, w1)"
    by (subst deploy_loop.simps) (simp add: b)
  show "loop_iterations env pkg cfg mode st w = 1"
    by (subst loop_iterations.simps) (simp add: b)
qed

lemma length_zero_pad: "length (zero_pad n k) = n"
  by (induction n arbitrary: k) simp_all

lemma isoformat_shape:
  "\<exists>y m d. isoformat until = y @ ascii ''-'' @ m @ ascii ''-'' @ d \<and>
     length y = 4 \<and> length m = 2 \<and> length d = 2"
  unfolding isoformat_def using length_zero_pad by blast

lemma resolve_app_dir_no_write:
  "filter is_write (trace (snd (resolve_app_dir env dir t w))) = filter is_write (trace w)"
  by (simp add: resolve_app_dir_def TemporaryDirectory_def drop_tmp_def emit_def is_write_def
        Let_def split: option.splits)

lemma gate_denies_iff:
  "fst (confirm_cluster_removal env msg until w) = Inr False \<longleftrightarrow>
     (\<not> stdin_isatty env \<or>
      ((\<forall>t\<in>set (gate_texts msg until). print_raises env t = None) \<and>
       (\<exists>line rest. stdin w = line # rest \<and> \<not> affirmative line)))"
  using answer_affirmative
  by (auto simp: confirm_cluster_removal_def console_print_def console_input_def emit_def
        gate_texts_def split: option.splits list.splits)

lemma file_present_written:
  "file_present path (tr @ [Mkdir d, WriteText path c])"
  by (simp add: file_present_def file_step_def)

lemma file_present_removed:
  "\<not> file_present (path_join d f) (tr @ [Cleanup d])"
  by (simp add: file_present_def file_step_def path_join_def)

lemma initial_attempt:
  "deploy_attempt env pkg cfg mode (initial_state dir) w = (r, t1, w1) \<Longrightarrow>
     t1 = (case dir of Some d \<Rightarrow> None | None \<Rightarrow> Some (tmp_name env (tmp_count w)))"
  unfolding deploy_attempt_def Let_def
  by (auto simp: initial_state_def resolve_app_dir_def drop_tmp_def TemporaryDirectory_def
        Let_def split: prod.splits option.splits)

section \<open>Properties of the orchestrator\<close>

text \<open>
  C1. In every call of \<open>deploy_app_package\<close> the loop body runs at most twice: the
  first attempt and at most one retry with an override. When the body has ended with
  \<open>continue\<close>, so that an override has been attempted, and the next attempt fails with
  an error classified as cluster removal, that error is what the call raises, in the
  world the failed attempt left: no second override, no third attempt.
\<close>

theorem at_most_one_override_attempt:
  "deploy_app_package_iterations env dir pkg deploy_cfg w \<le> 2
   \<and> (loop_body env pkg (config_or_default env deploy_cfg)
          (deploy_mode (config_or_default env deploy_cfg)) (initial_state dir) w =
         (Continue, st1, w1) \<longrightarrow>
       deploy_attempt env pkg (config_or_default env deploy_cfg)
          (deploy_mode (config_or_default env deploy_cfg)) st1 w1 = (Inl e2, t2, w2) \<longrightarrow>
       looks_like_cluster_removal_error (message e2) \<longrightarrow>
       deploy_app_package env dir pkg deploy_cfg w = (Inl e2, w2))"
proof -
  let ?cfg = "config_or_default env deploy_cfg"
  let ?st = "initial_state dir"
  have "deploy_app_package env dir pkg deploy_cfg w = (Inl e2, w2)"
    if b: "loop_body env pkg ?cfg (deploy_mode ?cfg) ?st w = (Continue, st1, w1)"
      and a: "deploy_attempt env pkg ?cfg (deploy_mode ?cfg) st1 w1 = (Inl e2, t2, w2)"
  proof -
    have "attempted_override st1"
      using b loop_body_Continue by blast
    then have "deploy_loop env pkg ?cfg (deploy_mode ?cfg) st1 w1 = (Inl e2, w2)"
      using a by (simp add: deploy_loop_second)
    then have "deploy_loop env pkg ?cfg (deploy_mode ?cfg) ?st w = (Inl e2, w2)"
      by (subst deploy_loop.simps) (simp add: b)
    then show ?thesis
      by (simp add: deploy_app_package_def Let_def)
  qed
  then show ?thesis
    by (simp add: deploy_app_package_iterations_def Let_def loop_iterations_le_2)
qed

theorem at_most_one_override_attempt_witness:
  "deploy_app_package_iterations (example_env True (client_failing refusal))
     (Some (ascii ''/app'')) example_package None (example_world [ascii ''y'']) \<le> 2
   \<and> fst (loop_body (example_env True (client_failing refusal)) example_package local_config
            (ascii ''docker'') (initial_state (Some (ascii ''/app'')))
            (example_world [ascii ''y''])) = Continue
   \<and> fst (snd (loop_body (example_env True (client_failing refusal)) example_package
            local_config (ascii ''docker'') (initial_state (Some (ascii ''/app'')))
            (example_world [ascii ''y'']))) =
       \<lparr>app_dir = Some (ascii ''/app''), attempted_override = True, tmp = None\<rparr>
   \<and> looks_like_cluster_removal_error (message refusal)
   \<and> fst (deploy_app_package (example_env True (client_failing refusal))
            (Some (ascii ''/app'')) example_package None (example_world [ascii ''y''])) =
       Inl refusal"
proof -
  let ?env = "example_env True (client_failing refusal)"
  let ?st = "initial_state (Some (ascii ''/app''))"
  let ?st1 = "\<lparr>app_dir = Some (ascii ''/app''), attempted_override = True, tmp = None\<rparr>"
  let ?w = "example_world [ascii ''y'']"
  let ?w1 = "snd (snd (loop_body ?env example_package local_config (ascii ''docker'') ?st ?w))"
  let ?t2 = "fst (snd (deploy_attempt ?env example_package local_config (ascii ''docker'')
                ?st1 ?w1))"
  let ?w2 = "snd (snd (deploy_attempt ?env example_package local_config (ascii ''docker'')
                ?st1 ?w1))"
  have cfg: "config_or_default ?env None = local_config"
    by (simp add: config_or_default_def example_env_def)
  have mode: "deploy_mode local_config = ascii ''docker''"
    by (simp add: deploy_mode_def local_config_def)
  have b1: "fst (loop_body ?env example_package local_config (ascii ''docker'') ?st ?w) = Continue"
    by code_simp
  have b2: "fst (snd (loop_body ?env example_package local_config (ascii ''docker'') ?st ?w))
              = ?st1"
    by code_simp
  have a: "fst (deploy_attempt ?env example_package local_config (ascii ''docker'') ?st1 ?w1)
             = Inl refusal"
    by code_simp
  have c: "looks_like_cluster_removal_error (message refusal)"
    by code_simp
  have b': "loop_body ?env example_package local_config (ascii ''docker'') ?st ?w
              = (Continue, ?st1, ?w1)"
    using b1 b2 by (simp add: prod_eq_iff)
  have a': "deploy_attempt ?env example_package local_config (ascii ''docker'') ?st1 ?w1
              = (Inl refusal, ?t2, ?w2)"
    using a by (simp add: prod_eq_iff)
  show ?thesis
    using at_most_one_override_attempt
            [where env = ?env and dir = "Some (ascii ''/app'')" and pkg = example_package
               and deploy_cfg = None and w = ?w and ?st1.0 = ?st1
               and ?w1.0 = ?w1 and ?e2.0 = refusal and ?t2.0 = ?t2 and ?w2.0 = ?w2]
          a b1 b2 b' a' c
    by (simp add: cfg mode)
qed

text \<open>
  C3. If the first deploy attempt of a call fails with an error classified as cluster
  removal and the confirmation gate denies, because standard input is not a terminal
  or because the console takes the gate's texts and the line read is not an
  affirmative answer, then \<open>deploy_app_package\<close> returns false, raising nothing, and
  the files written at the end of the call are those written before it: no override
  file, in no directory.
\<close>

theorem denied_override_returns_false:
  assumes fail: "deploy_attempt env pkg (config_or_default env deploy_cfg)
                   (deploy_mode (config_or_default env deploy_cfg)) (initial_state dir) w =
                   (Inl e, t1, w1)"
    and classified: "looks_like_cluster_removal_error (message e)"
    and denied: "\<not> stdin_isatty env \<or>
                 ((\<forall>t\<in>set (gate_texts (message e) (date_add_days (today env) 7)).
                     print_raises env t = None) \<and>
                  (\<exists>line rest. stdin w = line # rest \<and> \<not> affirmative line))"
  shows "fst (deploy_app_package env dir pkg deploy_cfg w) = Inr False
         \<and> filter is_write (trace (snd (deploy_app_package env dir pkg deploy_cfg w))) =
             filter is_write (trace w)"
proof -
  let ?cfg = "config_or_default env deploy_cfg"
  let ?st = "initial_state dir"
  let ?until = "date_add_days (today env) 7"
  let ?warn = "Log WARNING
                 (ascii ''Skipping Vespa deploy to avoid content cluster removal; '' @
                  ascii ''feeding/query may fail until the app is deployed.'')"
  obtain w2 where w2: "w2 = snd (confirm_cluster_removal env (message e) ?until w1)"
    by simp
  have q: "quiet w w1"
    using fail by (rule attempt_quiet)
  have "fst (confirm_cluster_removal env (message e) ?until w1) = Inr False"
    unfolding gate_denies_iff using denied quiet_stdin[OF q] by simp
  then have c: "confirm_cluster_removal env (message e) ?until w1 = (Inr False, w2)"
    using w2 by (metis prod.collapse)
  have "loop_body env pkg ?cfg (deploy_mode ?cfg) ?st w =
          (Return False, ?st\<lparr>tmp := t1\<rparr>, emit ?warn w2)"
    using fail classified c
    by (simp add: loop_body_def handle_failure_def initial_state_def)
  then have "deploy_loop env pkg ?cfg (deploy_mode ?cfg) ?st w =
               (Inr False, drop_tmp t1 (emit ?warn w2))"
    by (subst deploy_loop.simps) simp
  then have r: "deploy_app_package env dir pkg deploy_cfg w =
                  (Inr False, drop_tmp t1 (emit ?warn w2))"
    by (simp add: deploy_app_package_def Let_def)
  have "filter is_write (trace (drop_tmp t1 (emit ?warn w2))) = filter is_write (trace (emit ?warn w2))"
    by (rule drop_tmp_no_write)
  also have "\<dots> = filter is_write (trace w2)"
    by (simp add: emit_def is_write_def)
  also have "\<dots> = filter is_write (trace w1)"
    unfolding w2 by (rule confirm_no_write)
  also have "\<dots> = filter is_write (trace w)"
    using q by (rule quiet_no_write)
  finally show ?thesis
    using r by simp
qed

theorem denied_override_returns_false_witness:
  "fst (deploy_attempt (example_env True (client_failing refusal)) example_package local_config
          (ascii ''docker'') (initial_state None) (example_world [ascii ''n''])) = Inl refusal
   \<and> looks_like_cluster_removal_error (message refusal)
   \<and> stdin_isatty (example_env True (client_failing refusal))
   \<and> list_all (\<lambda>t. print_raises (example_env True (client_failing refusal)) t = None)
       (gate_texts (message refusal)
          (date_add_days (today (example_env True (client_failing refusal))) 7))
   \<and> \<not> affirmative (ascii ''n'')
   \<and> fst (deploy_app_package (example_env True (client_failing refusal)) None
            example_package None (example_world [ascii ''n''])) = Inr False
   \<and> filter is_write (trace (snd (deploy_app_package (example_env True (client_failing refusal))
        None example_package None (example_world [ascii ''n''])))) = []
   \<and> \<not> stdin_isatty (example_env False (client_failing refusal))
   \<and> deploy_app_package (example_env False (client_failing refusal)) (Some (ascii ''/app''))
        example_package None (example_world []) =
       (Inr False,
        \<lparr>stdin = [], tmp_count = 0,
         trace =
           [Log INFO (ascii ''Deploying with VespaDocker (image=vespaengine/vespa:latest)''),
            Construct (ascii ''VespaDocker'')
              [(ascii ''image'', PStr (ascii ''vespaengine/vespa:latest'')),
               (ascii ''application_root'', PStr (ascii ''/app''))],
            Deploy (ByPackage example_package),
            Log WARNING (ascii ''Vespa deploy requires '' @ quote @
              ascii ''content-cluster-removal'' @ quote @
              ascii '' override, but stdin is not interactive.''),
            Log WARNING (ascii ''Skipping Vespa deploy to avoid content cluster removal; '' @
              ascii ''feeding/query may fail until the app is deployed.'')]\<rparr>)"
proof -
  let ?env = "example_env True (client_failing refusal)"
  let ?w = "example_world [ascii ''n'']"
  let ?t1 = "fst (snd (deploy_attempt ?env example_package local_config (ascii ''docker'')
                (initial_state None) ?w))"
  let ?w1 = "snd (snd (deploy_attempt ?env example_package local_config (ascii ''docker'')
                (initial_state None) ?w))"
  have cfg: "config_or_default ?env None = local_config"
    by (simp add: config_or_default_def example_env_def)
  have mode: "deploy_mode local_config = ascii ''docker''"
    by (simp add: deploy_mode_def local_config_def)
  have a: "fst (deploy_attempt ?env example_package local_config (ascii ''docker'')
             (initial_state None) ?w) = Inl refusal"
    by code_simp
  have a': "deploy_attempt ?env example_package (config_or_default ?env None)
              (deploy_mode (config_or_default ?env None)) (initial_state None) ?w
              = (Inl refusal, ?t1, ?w1)"
    using a by (simp add: prod_eq_iff cfg mode)
  have c: "looks_like_cluster_removal_error (message refusal)"
    by code_simp
  have t: "stdin_isatty ?env"
    by (simp add: example_env_def)
  have p: "\<forall>t\<in>set (gate_texts (message refusal) (date_add_days (today ?env) 7)).
             print_raises ?env t = None"
    by (simp add: example_env_def plain_console_def)
  have n: "\<not> affirmative (ascii ''n'')"
    unfolding answer_affirmative[symmetric] by code_simp
  have l: "stdin ?w = ascii ''n'' # []"
    by (simp add: example_world_def)
  have d: "\<not> stdin_isatty ?env \<or>
           ((\<forall>t\<in>set (gate_texts (message refusal) (date_add_days (today ?env) 7)).
               print_raises ?env t = None) \<and>
            (\<exists>line rest. stdin ?w = line # rest \<and> \<not> affirmative line))"
    using p n l by blast
  have f: "\<not> stdin_isatty (example_env False (client_failing refusal))"
    by (simp add: example_env_def)
  have r: "deploy_app_package (example_env False (client_failing refusal))
        (Some (ascii ''/app'')) example_package None (example_world []) =
       (Inr False,
        \<lparr>stdin = [], tmp_count = 0,
         trace =
           [Log INFO (ascii ''Deploying with VespaDocker (image=vespaengine/vespa:latest)''),
            Construct (ascii ''VespaDocker'')
              [(ascii ''image'', PStr (ascii ''vespaengine/vespa:latest'')),
               (ascii ''application_root'', PStr (ascii ''/app''))],
            Deploy (ByPackage example_package),
            Log WARNING (ascii ''Vespa deploy requires '' @ quote @
              ascii ''content-cluster-removal'' @ quote @
              ascii '' override, but stdin is not interactive.''),
            Log WARNING (ascii ''Skipping Vespa deploy to avoid content cluster removal; '' @
              ascii ''feeding/query may fail until the app is deployed.'')]\<rparr>)"
    by code_simp
  show ?thesis
    using denied_override_returns_false[OF a' c d] a c t p n f r
    by (simp add: example_world_def list_all_iff)
qed

text \<open>
  When the console raises on the message, as a console that reads markup does on a
  closing tag nothing opened, the gate raises too: it neither confirms nor denies,
  and the call raises that error.
\<close>

lemma gate_raises_when_console_raises:
  "fst (confirm_cluster_removal
          ((example_env True (client_failing refusal))\<lparr>print_raises := markup_console\<rparr>)
          (ascii ''Content cluster [/docs] is removed'')
          \<lparr>year = 2027, month = 1, day = 4\<rparr> (example_world [ascii ''y''])) =
     Inl (Exn MarkupError (ascii ''closing tag [/docs] does not match any open tag''))"
  by code_simp

text \<open>
  C4. If the first deploy attempt fails with an error classified as cluster removal
  and the confirmation gate confirms, the call writes exactly one file,
  \<open>validation-overrides.xml\<close> in the resolved directory (the caller's, or else a new
  temporary directory), whose text is the \<open>allow\<close> element for
  \<open>content-cluster-removal\<close>, with \<open>until\<close> the ISO form of today plus seven days,
  inside the element \<open>validation-overrides\<close>. The loop body then runs once more, on
  that directory, and the call ends as that attempt ends: true if it succeeds. But
  the attempt starts with \<open>tmp = None\<close>. With a directory from the caller this
  changes nothing and the file is on disk during the retry. With no directory from
  the caller, \<open>tmp\<close> holds the temporary directory the file was written into, so
  the directory is removed, and the file with it, before the retry resolves its
  directory and constructs its client: the retry runs on a directory that is gone.
\<close>

theorem confirmed_override_retries_once:
  fixes env dir pkg deploy_cfg w e t1 w1 line rest b t5 w5
  defines "cfg \<equiv> config_or_default env deploy_cfg"
    and "until \<equiv> date_add_days (today env) 7"
  defines "w2 \<equiv> snd (confirm_cluster_removal env (message e) until w1)"
  defines "target_dir \<equiv> fst (fst (resolve_app_dir env dir t1 w2))"
    and "t2 \<equiv> snd (fst (resolve_app_dir env dir t1 w2))"
    and "w3 \<equiv> snd (resolve_app_dir env dir t1 w2)"
  defines "override_path \<equiv> path_join target_dir (ascii ''validation-overrides.xml'')"
  defines "override \<equiv> WriteText override_path (validation_overrides_xml until)"
  defines "w4 \<equiv> w3\<lparr>trace := trace w3 @ [Mkdir target_dir, override]\<rparr>"
    and "st1 \<equiv> \<lparr>app_dir = Some target_dir, attempted_override = True, tmp = t2\<rparr>"
  assumes fail: "deploy_attempt env pkg cfg (deploy_mode cfg) (initial_state dir) w =
                   (Inl e, t1, w1)"
    and classified: "looks_like_cluster_removal_error (message e)"
    and tty: "stdin_isatty env"
    and prints: "\<forall>t\<in>set (gate_texts (message e) until). print_raises env t = None"
    and line: "stdin w = line # rest"
    and yes: "affirmative line"
  shows "deploy_app_package env dir pkg deploy_cfg w =
           (case deploy_attempt env pkg cfg (deploy_mode cfg) st1 w4 of
              (Inr b, t, w') \<Rightarrow> (Inr b, drop_tmp t w')
            | (Inl e2, t, w') \<Rightarrow> (Inl e2, w'))
         \<and> deploy_app_package_iterations env dir pkg deploy_cfg w = 2
         \<and> (deploy_attempt env pkg cfg (deploy_mode cfg) st1 w4 = (Inr b, t5, w5) \<longrightarrow>
              deploy_app_package env dir pkg deploy_cfg w = (Inr True, drop_tmp t5 w5))
         \<and> filter is_write (trace (snd (deploy_app_package env dir pkg deploy_cfg w))) =
              filter is_write (trace w) @ [override]
         \<and> target_dir = (case dir of Some d \<Rightarrow> d | None \<Rightarrow> tmp_name env (tmp_count w2))
         \<and> validation_overrides_xml until =
              ascii ''<validation-overrides>\<newline>  <allow until='' @ quote @ isoformat until @
              quote @ ascii ''>content-cluster-removal</allow>\<newline></validation-overrides>\<newline>''
         \<and> (\<exists>y m d. isoformat until = y @ ascii ''-'' @ m @ ascii ''-'' @ d \<and>
                length y = 4 \<and> length m = 2 \<and> length d = 2)
         \<and> file_present override_path (trace w4)
         \<and> drop_tmp (tmp st1) w4 =
              (case dir of Some d \<Rightarrow> w4 | None \<Rightarrow> emit (Cleanup target_dir) w4)
         \<and> (file_present override_path (trace (drop_tmp (tmp st1) w4)) \<longleftrightarrow> dir \<noteq> None)"
proof -
  let ?st = "initial_state dir"
  let ?mode = "deploy_mode cfg"
  have q: "quiet w w1"
    using fail by (rule attempt_quiet)
  have "stdin w1 = line # rest"
    using line quiet_stdin[OF q] by simp
  then have "fst (confirm_cluster_removal env (message e) until w1) = Inr True"
    using confirm_with_line(1)[OF tty prints] yes by simp
  then have c: "confirm_cluster_removal env (message e) until w1 = (Inr True, w2)"
    unfolding w2_def by (metis prod.collapse)
  have r: "resolve_app_dir env dir t1 w2 = ((target_dir, t2), w3)"
    by (simp add: target_dir_def t2_def w3_def)
  have w4: "write_validation_overrides target_dir until w3 = w4"
    by (simp add: write_validation_overrides_def emit_def w4_def override_def override_path_def)
  have body: "loop_body env pkg cfg ?mode ?st w = (Continue, st1, w4)"
    using fail classified c r w4
    by (simp add: loop_body_def handle_failure_def until_def st1_def initial_state_def)
  have ov: "attempted_override st1"
    by (simp add: st1_def)
  have loop: "deploy_loop env pkg cfg ?mode ?st w =
                (case deploy_attempt env pkg cfg ?mode st1 w4 of
                   (Inr b, t, w') \<Rightarrow> (Inr b, drop_tmp t w')
                 | (Inl e2, t, w') \<Rightarrow> (Inl e2, w'))"
    by (subst deploy_loop.simps) (simp add: body deploy_loop_second[OF ov])
  then have 1: "deploy_app_package env dir pkg deploy_cfg w =
                  (case deploy_attempt env pkg cfg ?mode st1 w4 of
                     (Inr b, t, w') \<Rightarrow> (Inr b, drop_tmp t w')
                   | (Inl e2, t, w') \<Rightarrow> (Inl e2, w'))"
    by (simp add: deploy_app_package_def Let_def cfg_def)
  have "loop_iterations env pkg cfg ?mode ?st w = 2"
    by (subst loop_iterations.simps) (simp add: body loop_iterations_second[OF ov])
  then have 2: "deploy_app_package_iterations env dir pkg deploy_cfg w = 2"
    by (simp add: deploy_app_package_iterations_def Let_def cfg_def)
  have 3: "deploy_app_package env dir pkg deploy_cfg w = (Inr True, drop_tmp t5 w5)"
    if "deploy_attempt env pkg cfg ?mode st1 w4 = (Inr b, t5, w5)"
    using that 1 deploy_attempt_True[OF that] by simp
  obtain r5 t6 w6 where a2: "deploy_attempt env pkg cfg ?mode st1 w4 = (r5, t6, w6)"
    by (metis prod.collapse)
  have "filter is_write (trace (snd (deploy_app_package env dir pkg deploy_cfg w))) =
          filter is_write (trace w6)"
    unfolding 1 a2 by (cases r5) (simp_all add: drop_tmp_no_write)
  also have "\<dots> = filter is_write (trace w4)"
    using attempt_quiet[OF a2] by (rule quiet_no_write)
  also have "\<dots> = filter is_write (trace w3) @ [override]"
    by (simp add: w4_def is_write_def override_def)
  also have "filter is_write (trace w3) = filter is_write (trace w2)"
    unfolding w3_def by (rule resolve_app_dir_no_write)
  also have "\<dots> = filter is_write (trace w1)"
    unfolding w2_def by (rule confirm_no_write)
  also have "\<dots> = filter is_write (trace w)"
    using q by (rule quiet_no_write)
  finally have 4: "filter is_write (trace (snd (deploy_app_package env dir pkg deploy_cfg w))) =
                     filter is_write (trace w) @ [override]" .
  have 5: "target_dir = (case dir of Some d \<Rightarrow> d | None \<Rightarrow> tmp_name env (tmp_count w2))"
    by (simp add: target_dir_def resolve_app_dir_def TemporaryDirectory_def Let_def
          split: option.splits)
  have 6: "validation_overrides_xml until =
              ascii ''<validation-overrides>\<newline>  <allow until='' @ quote @ isoformat until @
              quote @ ascii ''>content-cluster-removal</allow>\<newline></validation-overrides>\<newline>''"
    by (simp add: validation_overrides_xml_def CLUSTER_REMOVAL_ALLOWLIST_TOKEN_def ascii_def)
  have 7: "file_present override_path (trace w4)"
    unfolding w4_def override_def by (simp add: file_present_written)
  have t2: "t2 = (case dir of Some d \<Rightarrow> None | None \<Rightarrow> Some target_dir)"
    using initial_attempt[OF fail]
    by (simp add: t2_def target_dir_def resolve_app_dir_def TemporaryDirectory_def Let_def
          split: option.splits)
  have 8: "drop_tmp (tmp st1) w4 =
             (case dir of Some d \<Rightarrow> w4 | None \<Rightarrow> emit (Cleanup target_dir) w4)"
    by (simp add: st1_def t2 drop_tmp_def split: option.splits)
  have 9: "file_present override_path (trace (drop_tmp (tmp st1) w4)) \<longleftrightarrow> dir \<noteq> None"
  proof (cases dir)
    case None
    then show ?thesis
      unfolding 8 override_path_def by (simp add: emit_def file_present_removed)
  next
    case (Some d)
    then show ?thesis
      unfolding 8 using 7 by simp
  qed
  show ?thesis
    using 1 2 3 4 5 6 7 8 9 isoformat_shape[of until] by blast
qed

theorem confirmed_override_retries_once_witness:
  "fst (deploy_attempt (example_env True client_requiring_override) example_package local_config
          (ascii ''docker'') (initial_state None) (example_world [ascii ''y''])) = Inl refusal
   \<and> looks_like_cluster_removal_error (message refusal)
   \<and> stdin_isatty (example_env True client_requiring_override)
   \<and> list_all (\<lambda>t. print_raises (example_env True client_requiring_override) t = None)
       (gate_texts (message refusal)
          (date_add_days (today (example_env True client_requiring_override)) 7))
   \<and> affirmative (ascii ''y'')
   \<and> deploy_app_package_iterations (example_env True client_requiring_override) None
        example_package None (example_world [ascii ''y'']) = 2
   \<and> fst (deploy_app_package (example_env True client_requiring_override) None
            example_package None (example_world [ascii ''y''])) = Inl refusal
   \<and> filter disk_event (trace (snd (deploy_app_package
        (example_env True client_requiring_override) None example_package None
        (example_world [ascii ''y''])))) =
       [MkTemp (ascii ''/tmp/tmp000''),
        Deploy (ByPackage example_package),
        MkTemp (ascii ''/tmp/tmp001''),
        Cleanup (ascii ''/tmp/tmp000''),
        WriteText (ascii ''/tmp/tmp001/validation-overrides.xml'')
          (ascii ''<validation-overrides>\<newline>  <allow until='' @ quote @ ascii ''2027-01-04'' @
           quote @ ascii ''>content-cluster-removal</allow>\<newline></validation-overrides>\<newline>''),
        Cleanup (ascii ''/tmp/tmp001''),
        Deploy (ByPackage example_package)]
   \<and> fst (deploy_app_package (example_env True client_requiring_override)
            (Some (ascii ''/app'')) example_package None (example_world [ascii ''y''])) = Inr True
   \<and> filter disk_event (trace (snd (deploy_app_package
        (example_env True client_requiring_override) (Some (ascii ''/app'')) example_package None
        (example_world [ascii ''y''])))) =
       [Deploy (ByPackage example_package),
        WriteText (ascii ''/app/validation-overrides.xml'')
          (ascii ''<validation-overrides>\<newline>  <allow until='' @ quote @ ascii ''2027-01-04'' @
           quote @ ascii ''>content-cluster-removal</allow>\<newline></validation-overrides>\<newline>''),
        Deploy (ByPackage example_package)]"
proof -
  let ?env = "example_env True client_requiring_override"
  let ?w = "example_world [ascii ''y'']"
  let ?t1 = "fst (snd (deploy_attempt ?env example_package local_config (ascii ''docker'')
                (initial_state None) ?w))"
  let ?w1 = "snd (snd (deploy_attempt ?env example_package local_config (ascii ''docker'')
                (initial_state None) ?w))"
  have cfg: "config_or_default ?env None = local_config"
    by (simp add: config_or_default_def example_env_def)
  have mode: "deploy_mode local_config = ascii ''docker''"
    by (simp add: deploy_mode_def local_config_def)
  have a: "fst (deploy_attempt ?env example_package local_config (ascii ''docker'')
             (initial_state None) ?w) = Inl refusal"
    by code_simp
  have a': "deploy_attempt ?env example_package (config_or_default ?env None)
              (deploy_mode (config_or_default ?env None)) (initial_state None) ?w
              = (Inl refusal, ?t1, ?w1)"
    using a by (simp add: prod_eq_iff cfg mode)
  have c: "looks_like_cluster_removal_error (message refusal)"
    by code_simp
  have t: "stdin_isatty ?env"
    by (simp add: example_env_def)
  have p: "\<forall>t\<in>set (gate_texts (message refusal) (date_add_days (today ?env) 7)).
             print_raises ?env t = None"
    by (simp add: example_env_def plain_console_def)
  have l: "stdin ?w = ascii ''y'' # []"
    by (simp add: example_world_def)
  have y: "affirmative (ascii ''y'')"
    unfolding answer_affirmative[symmetric] by code_simp
  note th = confirmed_override_retries_once[OF a' c t p l y, of True None ?w]
  have i: "deploy_app_package_iterations ?env None example_package None ?w = 2"
    using th by (rule conjunct2[THEN conjunct1])
  have r: "fst (deploy_app_package ?env None example_package None ?w) = Inl refusal"
    by code_simp
  have d: "filter disk_event (trace (snd (deploy_app_package ?env None example_package None ?w))) =
       [MkTemp (ascii ''/tmp/tmp000''),
        Deploy (ByPackage example_package),
        MkTemp (ascii ''/tmp/tmp001''),
        Cleanup (ascii ''/tmp/tmp000''),
        WriteText (ascii ''/tmp/tmp001/validation-overrides.xml'')
          (ascii ''<validation-overrides>\<newline>  <allow until='' @ quote @ ascii ''2027-01-04'' @
           quote @ ascii ''>content-cluster-removal</allow>\<newline></validation-overrides>\<newline>''),
        Cleanup (ascii ''/tmp/tmp001''),
        Deploy (ByPackage example_package)]"
    by code_simp
  have r2: "fst (deploy_app_package ?env (Some (ascii ''/app'')) example_package None ?w) =
              Inr True"
    by code_simp
  have d2: "filter disk_event (trace (snd (deploy_app_package ?env (Some (ascii ''/app''))
              example_package None ?w))) =
       [Deploy (ByPackage example_package),
        WriteText (ascii ''/app/validation-overrides.xml'')
          (ascii ''<validation-overrides>\<newline>  <allow until='' @ quote @ ascii ''2027-01-04'' @
           quote @ ascii ''>content-cluster-removal</allow>\<newline></validation-overrides>\<newline>''),
        Deploy (ByPackage example_package)]"
    by code_simp
  have p': "list_all (\<lambda>t. print_raises ?env t = None)
              (gate_texts (message refusal) (date_add_days (today ?env) 7))"
    using p by (simp add: list_all_iff)
  show ?thesis
    using a c t p' y i r d r2 d2 by blast
qed

text \<open>
  C8. If the client is constructed and its deploy operation fails with an error that
  is neither a shape mismatch nor classified as cluster removal, then
  \<open>deploy_app_package\<close> raises that very error after a single run of the loop body,
  and the confirmation gate is not invoked: nothing is read from standard input and
  the trace gains no prompt, no printed text, no line read and no warning.
\<close>

theorem other_failure_propagates_unchanged:
  assumes constructed: "\<And>kwargs tr.
        construct (if is_local_mode (config_or_default env deploy_cfg)
                   then resolve_vespa_docker_class env else VespaCloud env) kwargs tr = Inr d"
    and fails: "\<And>tr. deploy d (ByPackage pkg) tr = Inl e"
    and no_mismatch: "\<not> should_fallback e"
    and not_classified: "\<not> looks_like_cluster_removal_error (message e)"
    and tenant: "is_local_mode (config_or_default env deploy_cfg) \<or>
                 truthy (get_cloud_tenant (config_or_default env deploy_cfg))"
  shows "fst (deploy_app_package env dir pkg deploy_cfg w) = Inl e
         \<and> stdin (snd (deploy_app_package env dir pkg deploy_cfg w)) = stdin w
         \<and> filter gate_event (trace (snd (deploy_app_package env dir pkg deploy_cfg w))) =
             filter gate_event (trace w)
         \<and> deploy_app_package_iterations env dir pkg deploy_cfg w = 1"
proof -
  let ?cfg = "config_or_default env deploy_cfg"
  let ?st = "initial_state dir"
  have inv: "fst (deploy_with_pyvespa d pkg root w0) = Inl e" for root w0
    using fails no_mismatch by (simp add: deploy_with_pyvespa_def call_deploy_def)
  have client: "fst (case call_construct cls kwargs w0 of
           (Inl e, w2) \<Rightarrow> (Inl e, w2)
         | (Inr client, w2) \<Rightarrow>
             (case deploy_with_pyvespa client pkg root w2 of
                (Inl e, w3) \<Rightarrow> (Inl e, w3)
              | (Inr vespa_app, w3) \<Rightarrow> (Inr True, f vespa_app w3))) = Inl e"
    if "\<And>kwargs tr. construct cls kwargs tr = Inr d" for cls kwargs w0 root f
  proof -
    obtain w' where "deploy_with_pyvespa d pkg root (emit (Construct (cls_name cls) kwargs) w0) =
        (Inl e, w')"
      using inv[of root "emit (Construct (cls_name cls) kwargs) w0"] by (metis prod.collapse)
    then show ?thesis
      using that by (simp add: call_construct_def)
  qed
  obtain p t wr where r: "resolve_app_dir env dir None w = ((p, t), wr)"
    by (metis prod.collapse)
  have att: "fst (deploy_attempt env pkg ?cfg (deploy_mode ?cfg) ?st w) =
               fst (if is_local_mode ?cfg then deploy_docker env pkg ?cfg p wr
                    else deploy_cloud env pkg ?cfg p wr)"
    by (simp add: deploy_attempt_def deploy_mode_def initial_state_def drop_tmp_def r
          case_prod_beta ascii_def)
  have "fst (deploy_attempt env pkg ?cfg (deploy_mode ?cfg) ?st w) = Inl e"
  proof (cases "is_local_mode ?cfg")
    case True
    then show ?thesis
      unfolding att using constructed
      by (simp add: deploy_docker_def Let_def client)
  next
    case False
    then show ?thesis
      unfolding att using constructed tenant
      by (simp add: deploy_cloud_def Let_def client)
  qed
  then obtain t1 w1 where a: "deploy_attempt env pkg ?cfg (deploy_mode ?cfg) ?st w = (Inl e, t1, w1)"
    by (metis prod.collapse)
  have q: "quiet w w1"
    using a by (simp add: attempt_quiet)
  show ?thesis
    using first_failure_not_classified[OF a not_classified]
      quiet_stdin[OF q] quiet_no_gate_event[OF q]
    by (simp add: deploy_app_package_def deploy_app_package_iterations_def Let_def)
qed

theorem other_failure_propagates_unchanged_witness:
  "\<not> should_fallback connection_refused
   \<and> \<not> looks_like_cluster_removal_error (message connection_refused)
   \<and> fst (deploy_app_package (example_env True (client_failing connection_refused))
            (Some (ascii ''/app'')) example_package None (example_world [ascii ''y''])) =
       Inl connection_refused
   \<and> stdin (snd (deploy_app_package (example_env True (client_failing connection_refused))
            (Some (ascii ''/app'')) example_package None (example_world [ascii ''y'']))) =
       [ascii ''y'']
   \<and> filter gate_event (trace (snd (deploy_app_package
            (example_env True (client_failing connection_refused))
            (Some (ascii ''/app'')) example_package None (example_world [ascii ''y''])))) = []
   \<and> deploy_app_package_iterations (example_env True (client_failing connection_refused))
        (Some (ascii ''/app'')) example_package None (example_world [ascii ''y'']) = 1"
proof -
  let ?env = "example_env True (client_failing connection_refused)"
  have cfg: "config_or_default ?env None = local_config"
    by (simp add: config_or_default_def example_env_def)
  have k: "construct (if is_local_mode (config_or_default ?env None)
                   then resolve_vespa_docker_class ?env else VespaCloud ?env) kwargs tr
             = Inr (client_failing connection_refused [])" for kwargs tr
    by (simp add: cfg local_config_def example_env_def example_class_def client_failing_def)
  have f: "deploy (client_failing connection_refused []) (ByPackage example_package) tr
             = Inl connection_refused" for tr
    by (simp add: client_failing_def)
  have m: "\<not> should_fallback connection_refused"
    by code_simp
  have c: "\<not> looks_like_cluster_removal_error (message connection_refused)"
    by code_simp
  have t: "is_local_mode (config_or_default ?env None) \<or>
           truthy (get_cloud_tenant (config_or_default ?env None))"
    by (simp add: cfg local_config_def)
  show ?thesis
    using other_failure_propagates_unchanged[OF k f m c t, of "Some (ascii ''/app'')"
            "example_world [ascii ''y'']"]
      m c
    by (simp add: example_world_def)
qed

text \<open>
  C9. In cloud mode with a missing or empty tenant, \<open>deploy_app_package\<close> raises the
  runtime error \<open>Missing env var: VESPA_CLOUD_TENANT\<close>. All that has happened by then
  is the resolution of the application directory: no client has been constructed.
  The loop body runs once, so the error is neither retried nor turned into \<open>False\<close>.
\<close>

theorem missing_tenant_is_fatal:
  assumes "\<not> is_local_mode (config_or_default env deploy_cfg)"
    and "\<not> truthy (get_cloud_tenant (config_or_default env deploy_cfg))"
  shows "deploy_app_package env dir pkg deploy_cfg w =
           (Inl (Exn RuntimeError (ascii ''Missing env var: VESPA_CLOUD_TENANT'')),
            snd (resolve_app_dir env dir None w))
         \<and> filter is_construct (trace (snd (resolve_app_dir env dir None w))) =
             filter is_construct (trace w)
         \<and> deploy_app_package_iterations env dir pkg deploy_cfg w = 1"
proof -
  let ?cfg = "config_or_default env deploy_cfg"
  let ?st = "initial_state dir"
  let ?e = "Exn RuntimeError (ascii ''Missing env var: VESPA_CLOUD_TENANT'')"
  have n: "\<not> looks_like_cluster_removal_error (message ?e)"
    by code_simp
  have a: "deploy_attempt env pkg ?cfg (deploy_mode ?cfg) ?st w =
             (Inl ?e, snd (fst (resolve_app_dir env dir None w)),
              snd (resolve_app_dir env dir None w))"
    using assms
    by (simp add: deploy_attempt_def deploy_mode_def deploy_cloud_def initial_state_def
          drop_tmp_def ascii_def split: prod.splits)
  have c: "filter is_construct (trace (snd (resolve_app_dir env dir None w))) =
             filter is_construct (trace w)"
    by (simp add: resolve_app_dir_def TemporaryDirectory_def drop_tmp_def emit_def
          is_construct_def Let_def split: option.splits)
  show ?thesis
    using first_failure_not_classified[OF a n] c
    by (simp add: deploy_app_package_def deploy_app_package_iterations_def Let_def)
qed

theorem missing_tenant_is_fatal_witness:
  "\<not> is_local_mode cloud_config_without_tenant
   \<and> \<not> truthy (get_cloud_tenant cloud_config_without_tenant)
   \<and> deploy_app_package (example_env True client_requiring_override) None example_package
        (Some cloud_config_without_tenant) (example_world []) =
       (Inl (Exn RuntimeError (ascii ''Missing env var: VESPA_CLOUD_TENANT'')),
        \<lparr>stdin = [], tmp_count = 1,
         trace = [MkTemp (ascii ''/tmp/tmp000''), ToFiles (ascii ''/tmp/tmp000'')]\<rparr>)
   \<and> deploy_app_package_iterations (example_env True client_requiring_override) None
        example_package (Some cloud_config_without_tenant) (example_world []) = 1"
proof -
  let ?env = "example_env True client_requiring_override"
  have cfg: "config_or_default ?env (Some cloud_config_without_tenant) = cloud_config_without_tenant"
    by (simp add: config_or_default_def)
  have l: "\<not> is_local_mode cloud_config_without_tenant"
    by (simp add: cloud_config_without_tenant_def)
  have t: "\<not> truthy (get_cloud_tenant cloud_config_without_tenant)"
    by (simp add: cloud_config_without_tenant_def local_config_def truthy_def)
  have r: "snd (resolve_app_dir ?env None None (example_world [])) =
             \<lparr>stdin = [], tmp_count = 1,
              trace = [MkTemp (ascii ''/tmp/tmp000''), ToFiles (ascii ''/tmp/tmp000'')]\<rparr>"
    by code_simp
  show ?thesis
    using missing_tenant_is_fatal[of ?env "Some cloud_config_without_tenant" None example_package
            "example_world []"] l t
    by (simp add: cfg r)
qed

section \<open>Properties of \<open>chunks\<close>\<close>

lemma ascii_space: "ascii '' '' = [32]"
  by (simp add: ascii_def)

lemma split_from_word:
  "list_all (\<lambda>c. \<not> is_space c) w \<Longrightarrow> split_from cur (w @ s) = split_from (cur @ w) s"
  by (induction w arbitrary: cur) simp_all

lemma split_from_words:
  "list_all (\<lambda>c. \<not> is_space c) cur \<Longrightarrow>
     list_all (\<lambda>w. w \<noteq> [] \<and> list_all (\<lambda>c. \<not> is_space c) w) (split_from cur s)"
  by (induction s arbitrary: cur) simp_all

lemma split_words:
  "list_all (\<lambda>w. w \<noteq> [] \<and> list_all (\<lambda>c. \<not> is_space c) w) (split s)"
  by (simp add: split_def split_from_words)

lemma split_join:
  assumes "list_all (\<lambda>w. w \<noteq> [] \<and> list_all (\<lambda>c. \<not> is_space c) w) ws"
  shows "split (join (ascii '' '') ws) = ws"
  using assms
proof (induction ws)
  case Nil
  then show ?case by (simp add: split_def)
next
  case (Cons x xs)
  then have x: "x \<noteq> []" "list_all (\<lambda>c. \<not> is_space c) x"
    by simp_all
  have w: "split_from [] (x @ s) = split_from x s" for s
    using split_from_word[OF x(2), of "[]" s] by simp
  show ?case
  proof (cases xs)
    case Nil
    have "split_from [] (x @ []) = [x]"
      unfolding w using x(1) by simp
    then show ?thesis
      using Nil by (simp add: split_def)
  next
    case (Cons y ys)
    have "split_from [] (x @ 32 # join (ascii '' '') xs) =
            split_from x (32 # join (ascii '' '') xs)"
      by (rule w)
    also have "\<dots> = x # split_from [] (join (ascii '' '') xs)"
      using x(1) by (simp add: is_space_def)
    also have "\<dots> = x # xs"
      using Cons.IH Cons.prems by (simp add: split_def)
    finally show ?thesis
      using Cons by (simp add: split_def ascii_space)
  qed
qed

lemma slice_window:
  assumes "0 \<le> start" "start < int (length ws)" "0 < chunk_size"
  shows "slice ws start (min (start + chunk_size) (int (length ws))) =
           take (nat chunk_size) (drop (nat start) ws)"
proof (cases "start + chunk_size \<le> int (length ws)")
  case True
  then have "slice_index (length ws) (start + chunk_size) - slice_index (length ws) start =
               nat chunk_size"
    using assms by (simp add: slice_index_def)
  then show ?thesis
    using True assms by (simp add: slice_def Let_def slice_index_def)
next
  case False
  then have "length (drop (nat start) ws) \<le> nat chunk_size"
    using assms by simp
  then have "take (nat chunk_size) (drop (nat start) ws) = drop (nat start) ws"
    by (rule take_all)
  then show ?thesis
    using False assms by (simp add: slice_def Let_def slice_index_def)
qed

lemma div_add_step: "0 < step \<Longrightarrow> (m + step) div step = Suc (m div step)" for m step :: nat
  using div_add_self2[of step m] by simp

lemma window_count_Suc:
  fixes n start step :: nat
  assumes "start < n" "0 < step"
  shows "(n - start + step - 1) div step = Suc ((n - (start + step) + step - 1) div step)"
proof -
  obtain m where m: "n - start = Suc m"
    using assms(1) by (metis Suc_diff_Suc)
  have "n - start + step - 1 = m + step"
    using m by simp
  then have l: "(n - start + step - 1) div step = Suc (m div step)"
    using div_add_step[OF assms(2), of m] by (simp only:)
  show ?thesis
  proof (cases "Suc m \<le> step")
    case True
    then have "n - (start + step) + step - 1 = step - 1"
      using m by simp
    then have "(n - (start + step) + step - 1) div step = 0"
      using assms(2) by (simp only: div_less diff_less zero_less_one)
    moreover have "m div step = 0"
      using True by simp
    ultimately show ?thesis
      using l by (simp only:)
  next
    case False
    then have "n - (start + step) + step - 1 = m"
      using m by simp
    then show ?thesis
      using l by (simp only:)
  qed
qed

lemma chunk_loop_windows:
  fixes cs step :: nat
  assumes "0 < cs" "0 < step" "int step = int cs - overlap"
  shows "chunk_loop ws (int cs) overlap (int start) acc =
           Some (acc @ map (\<lambda>k. join (ascii '' '') (take cs (drop (start + k * step) ws)))
                         [0..<(length ws - start + step - 1) div step])"
proof (induction "length ws - start" arbitrary: start acc rule: less_induct)
  case less
  show ?case
  proof (cases "start < length ws")
    case False
    then have "(length ws - start + step - 1) div step = 0"
      using assms(2) by simp
    then show ?thesis
      using False by (subst chunk_loop.simps) simp
  next
    case True
    let ?c = "(length ws - (start + step) + step - 1) div step"
    let ?f = "\<lambda>k. join (ascii '' '') (take cs (drop (start + k * step) ws))"
    have sl: "slice ws (int start) (min (int start + int cs) (int (length ws))) =
                take cs (drop start ws)"
      using slice_window[of "int start" ws "int cs"] True assms(1) by simp
    have st: "int start + (int cs - overlap) = int (start + step)"
      using assms(3) by simp
    have "length ws - (start + step) < length ws - start"
      using True assms(2) by simp
    then have IH: "chunk_loop ws (int cs) overlap (int (start + step)) acc' =
           Some (acc' @ map (\<lambda>k. join (ascii '' '') (take cs (drop (start + step + k * step) ws)))
                          [0..<?c])" for acc'
      by (rule less)
    have m: "map ?f [0..<Suc ?c] =
            ?f 0 # map (\<lambda>k. join (ascii '' '') (take cs (drop (start + step + k * step) ws))) [0..<?c]"
      unfolding map_upt_Suc by (simp add: add.assoc)
    have "chunk_loop ws (int cs) overlap (int start) acc =
            chunk_loop ws (int cs) overlap (int (start + step))
              (acc @ [join (ascii '' '') (take cs (drop start ws))])"
      apply (subst chunk_loop.simps)
      unfolding sl st
      using True by simp
    also have "\<dots> = Some ((acc @ [join (ascii '' '') (take cs (drop start ws))]) @
                 map (\<lambda>k. join (ascii '' '') (take cs (drop (start + step + k * step) ws))) [0..<?c])"
      by (rule IH)
    also have "\<dots> = Some (acc @ map ?f [0..<Suc ?c])"
      unfolding m by simp
    also have "Suc ?c = (length ws - start + step - 1) div step"
      using window_count_Suc[OF True assms(2)] by simp
    finally show ?thesis .
  qed
qed

text \<open>
  C10, as the claim states it, fails: every chunk but the last would have exactly
  \<open>chunk_size\<close> words. With four words, \<open>chunk_size\<close> 3 and \<open>overlap\<close> 2 the function
  returns four chunks, and the third, which is not the last, has two words.
\<close>

theorem chunks_short_chunk_before_last:
  "chunks (ascii ''a b c d'') 3 2 =
     Some (Inr [ascii ''a b c'', ascii ''b c d'', ascii ''c d'', ascii ''d''])
   \<and> split (ascii ''c d'') = [ascii ''c'', ascii ''d'']"
  by code_simp

text \<open>
  C10, amended. \<open>chunks\<close> raises a \<open>ValueError\<close> whenever \<open>chunk_size\<close> is not
  positive, \<open>overlap\<close> is negative, or \<open>overlap\<close> is at least \<open>chunk_size\<close>. For a
  valid pair, a text of at most \<open>chunk_size\<close> words comes back unchanged as the only
  chunk. A longer text of \<open>n\<close> words gives, with \<open>step = chunk_size - overlap\<close>, the
  chunks \<open>k = 0, 1, ...\<close> below \<open>n / step\<close> rounded up: the loop ends, and chunk \<open>k\<close>
  is the words from index \<open>k * step\<close> on, at most \<open>chunk_size\<close> of them, joined by
  single spaces. So splitting a chunk gives those words back, consecutive chunks
  start \<open>step\<close> words apart and word \<open>i\<close> is word \<open>i mod step\<close> of chunk \<open>i div step\<close>.
  A chunk has exactly \<open>chunk_size\<close> words when that many remain from its start, and
  the remaining words otherwise; with a positive overlap that can be the case for
  several chunks at the end, not only for the last.
\<close>

theorem chunks_sliding_windows:
  fixes s chunk_size overlap
  defines "ws \<equiv> split s"
    and "step \<equiv> nat (chunk_size - overlap)"
  shows
  "(chunk_size \<le> 0 \<or> overlap < 0 \<or> chunk_size \<le> overlap \<longrightarrow>
      (\<exists>m. chunks s chunk_size overlap = Some (Inl (Exn ValueError m))))
   \<and> (0 < chunk_size \<and> 0 \<le> overlap \<and> overlap < chunk_size \<and> int (length ws) \<le> chunk_size \<longrightarrow>
        chunks s chunk_size overlap = Some (Inr [s]))
   \<and> (0 < chunk_size \<and> 0 \<le> overlap \<and> overlap < chunk_size \<and> chunk_size < int (length ws) \<longrightarrow>
        (\<exists>cl. chunks s chunk_size overlap = Some (Inr cl)
           \<and> cl = map (\<lambda>k. join (ascii '' '') (take (nat chunk_size) (drop (k * step) ws)))
                    [0..<(length ws + step - 1) div step]
           \<and> length cl = (length ws + step - 1) div step
           \<and> (\<forall>k<length cl. split (cl ! k) = take (nat chunk_size) (drop (k * step) ws))
           \<and> (\<forall>k<length cl. length (split (cl ! k)) = min (nat chunk_size) (length ws - k * step))
           \<and> (\<forall>i<length ws. i div step < length cl
                  \<and> split (cl ! (i div step)) ! (i mod step) = ws ! i)))"
proof -
  have 1: "\<exists>m. chunks s chunk_size overlap = Some (Inl (Exn ValueError m))"
    if "chunk_size \<le> 0 \<or> overlap < 0 \<or> chunk_size \<le> overlap"
    using that by (auto simp: chunks_def)
  have 2: "chunks s chunk_size overlap = Some (Inr [s])"
    if "0 < chunk_size \<and> 0 \<le> overlap \<and> overlap < chunk_size \<and> int (length ws) \<le> chunk_size"
    using that by (simp add: chunks_def ws_def)
  have 3: "\<exists>cl. chunks s chunk_size overlap = Some (Inr cl)
           \<and> cl = map (\<lambda>k. join (ascii '' '') (take (nat chunk_size) (drop (k * step) ws)))
                    [0..<(length ws + step - 1) div step]
           \<and> length cl = (length ws + step - 1) div step
           \<and> (\<forall>k<length cl. split (cl ! k) = take (nat chunk_size) (drop (k * step) ws))
           \<and> (\<forall>k<length cl. length (split (cl ! k)) = min (nat chunk_size) (length ws - k * step))
           \<and> (\<forall>i<length ws. i div step < length cl
                  \<and> split (cl ! (i div step)) ! (i mod step) = ws ! i)"
    if v: "0 < chunk_size \<and> 0 \<le> overlap \<and> overlap < chunk_size \<and> chunk_size < int (length ws)"
  proof -
    let ?cs = "nat chunk_size"
    let ?n = "(length ws + step - 1) div step"
    let ?cl = "map (\<lambda>k. join (ascii '' '') (take ?cs (drop (k * step) ws))) [0..<?n]"
    have cs: "0 < ?cs" "int ?cs = chunk_size"
      using v by simp_all
    have step: "0 < step" "int step = int ?cs - overlap" "step \<le> ?cs"
      using v by (auto simp: step_def)
    have "chunk_loop ws (int ?cs) overlap (int 0) [] = Some ([] @ ?cl)"
      using chunk_loop_windows[OF cs(1) step(1,2), of ws 0 "[]"] by simp
    then have c: "chunks s chunk_size overlap = Some (Inr ?cl)"
      using v cs(2) by (simp add: chunks_def ws_def[symmetric] Let_def)
    have words: "list_all (\<lambda>w. w \<noteq> [] \<and> list_all (\<lambda>c. \<not> is_space c) w) ws"
      unfolding ws_def by (rule split_words)
    have w: "split (?cl ! k) = take ?cs (drop (k * step) ws)" if "k < length ?cl" for k
    proof -
      have "list_all (\<lambda>w. w \<noteq> [] \<and> list_all (\<lambda>c. \<not> is_space c) w)
              (take ?cs (drop (k * step) ws))"
        using words by (auto simp: list_all_iff dest: in_set_takeD in_set_dropD)
      then have "split (join (ascii '' '') (take ?cs (drop (k * step) ws))) =
                   take ?cs (drop (k * step) ws)"
        by (rule split_join)
      then show ?thesis using that by simp
    qed
    have l: "length (split (?cl ! k)) = min ?cs (length ws - k * step)" if "k < length ?cl" for k
      using w[OF that] by simp
    have cov: "i div step < length ?cl \<and> split (?cl ! (i div step)) ! (i mod step) = ws ! i"
      if i: "i < length ws" for i
    proof -
      have "i div step \<le> (length ws - 1) div step"
        using i by (intro div_le_mono) simp
      also have "\<dots> < Suc ((length ws - 1) div step)"
        by simp
      also have "\<dots> = (length ws - 1 + step) div step"
        using div_add_step[OF step(1), of "length ws - 1"] by (simp only:)
      also have "\<dots> = ?n"
        using i by simp
      finally have k: "i div step < length ?cl"
        by simp
      have "i mod step < ?cs"
        using step(1,3) by (meson mod_less_divisor less_le_trans)
      then have "take ?cs (drop (i div step * step) ws) ! (i mod step) =
                   drop (i div step * step) ws ! (i mod step)"
        by simp
      also have "\<dots> = ws ! (i div step * step + i mod step)"
      proof (rule nth_drop)
        have "i div step * step \<le> i"
          by simp
        then show "i div step * step \<le> length ws"
          using i by linarith
      qed
      also have "i div step * step + i mod step = i"
        by simp
      finally have "take ?cs (drop (i div step * step) ws) ! (i mod step) = ws ! i" .
      then show ?thesis
        using k w[OF k] by simp
    qed
    have len: "length ?cl = ?n"
      by simp
    have w': "\<forall>k<length ?cl. split (?cl ! k) = take ?cs (drop (k * step) ws)"
      using w by blast
    have l': "\<forall>k<length ?cl. length (split (?cl ! k)) = min ?cs (length ws - k * step)"
      using l by blast
    have cov': "\<forall>i<length ws. i div step < length ?cl
                  \<and> split (?cl ! (i div step)) ! (i mod step) = ws ! i"
      using cov by blast
    show ?thesis
      using c len w' l' cov' by blast
  qed
  show ?thesis
    using 1 2 3 by blast
qed

theorem chunks_sliding_windows_witness:
  "(\<exists>m. chunks (ascii ''a b'') 0 0 = Some (Inl (Exn ValueError m)))
   \<and> chunks (ascii '' a  b '') 2 1 = Some (Inr [ascii '' a  b ''])
   \<and> chunks [] 10 0 = Some (Inr [[]])
   \<and> split (ascii ''a b c d'') = [ascii ''a'', ascii ''b'', ascii ''c'', ascii ''d'']
   \<and> (\<exists>cl. chunks (ascii ''a b c d'') 3 2 = Some (Inr cl) \<and> length cl = 4
          \<and> split (cl ! 0) = [ascii ''a'', ascii ''b'', ascii ''c'']
          \<and> split (cl ! 2) = [ascii ''c'', ascii ''d''])
   \<and> chunks (ascii ''a b c d'') 3 2 =
        Some (Inr [ascii ''a b c'', ascii ''b c d'', ascii ''c d'', ascii ''d''])
   \<and> chunks (ascii ''a'' @ [0xA0] @ ascii ''b c'') 2 0 = Some (Inr [ascii ''a b'', ascii ''c''])"
proof -
  have e: "split [] = []"
    by code_simp
  have a: "split (ascii '' a  b '') = [ascii ''a'', ascii ''b'']"
    by code_simp
  have s: "split (ascii ''a b c d'') = [ascii ''a'', ascii ''b'', ascii ''c'', ascii ''d'']"
    by code_simp
  have 1: "\<exists>m. chunks (ascii ''a b'') 0 0 = Some (Inl (Exn ValueError m))"
    using chunks_sliding_windows[where s = "ascii ''a b''" and chunk_size = 0 and overlap = 0]
    by simp
  have 2: "chunks (ascii '' a  b '') 2 1 = Some (Inr [ascii '' a  b ''])"
    using chunks_sliding_windows[where s = "ascii '' a  b ''" and chunk_size = 2 and overlap = 1]
    by (simp add: a)
  have 3: "chunks [] 10 0 = Some (Inr [[]])"
    using chunks_sliding_windows[where s = "[]" and chunk_size = 10 and overlap = 0]
    by (simp add: e)
  have "\<exists>cl. chunks (ascii ''a b c d'') 3 2 = Some (Inr cl) \<and> length cl = 4
          \<and> (\<forall>k<length cl. split (cl ! k) =
                take 3 (drop k [ascii ''a'', ascii ''b'', ascii ''c'', ascii ''d'']))"
    using chunks_sliding_windows[where s = "ascii ''a b c d''" and chunk_size = 3 and overlap = 2]
    by (fastforce simp: s)
  then obtain cl where cl: "chunks (ascii ''a b c d'') 3 2 = Some (Inr cl)" "length cl = 4"
      "\<forall>k<length cl. split (cl ! k) =
         take 3 (drop k [ascii ''a'', ascii ''b'', ascii ''c'', ascii ''d''])"
    by blast
  have "split (cl ! 0) = [ascii ''a'', ascii ''b'', ascii ''c'']"
       "split (cl ! 2) = [ascii ''c'', ascii ''d'']"
    using cl(2,3) by simp_all
  then have 4: "\<exists>cl. chunks (ascii ''a b c d'') 3 2 = Some (Inr cl) \<and> length cl = 4
          \<and> split (cl ! 0) = [ascii ''a'', ascii ''b'', ascii ''c'']
          \<and> split (cl ! 2) = [ascii ''c'', ascii ''d'']"
    using cl(1,2) by blast
  have 5: "chunks (ascii ''a b c d'') 3 2 =
        Some (Inr [ascii ''a b c'', ascii ''b c d'', ascii ''c d'', ascii ''d''])"
    by code_simp
  have 6: "chunks (ascii ''a'' @ [0xA0] @ ascii ''b c'') 2 0 =
        Some (Inr [ascii ''a b'', ascii ''c''])"
    by code_simp
  show ?thesis
    using 1 2 3 s 4 5 6 by blast
qed

end
